theory Spec2Isabelle
  imports Complex_Main "HOL-Library.Multiset" "HOL-Library.Sublist"
begin

section \<open>Discriminator pretraining: the orchestration script\<close>

text \<open>
  A shallow embedding of \<^verbatim>\<open>pretrain_discriminator.py\<close>: the functions \<^verbatim>\<open>main\<close>,
  \<^verbatim>\<open>sample_from_start\<close> and \<^verbatim>\<open>train\<close>.

  Python objects with mutable state (the generator, the discriminator, the optimizer, the
  encoder) are represented by their state dictionaries, values of one abstract type \<open>'p\<close>,
  and passed explicitly. Images (raw or precomputed features) are values of an abstract
  type \<open>'img\<close>. A one-dimensional tensor is a list, a two-dimensional tensor the list of
  its rows. Python floats are modelled by rationals: no claim below depends on rounding.
  Every exception of the script is a value of \<open>error\<close>; the process stops at the first.
\<close>

subsection \<open>Errors\<close>

datatype error =
    FileNotFoundError      \<comment> \<open>\<^verbatim>\<open>open\<close> of a missing file, or of a file in a missing directory\<close>
  | UnpicklingError        \<comment> \<open>\<^verbatim>\<open>torch.load\<close> of a file that holds no dictionary\<close>
  | KeyError string        \<comment> \<open>\<^verbatim>\<open>checkpoint[key]\<close> with the key missing\<close>
  | AttributeError         \<comment> \<open>\<^verbatim>\<open>None.eval()\<close>\<close>
  | TypeError              \<comment> \<open>\<^verbatim>\<open>None(imgs)\<close>\<close>
  | RuntimeError           \<comment> \<open>\<^verbatim>\<open>torch.max\<close> of an empty tensor, \<^verbatim>\<open>torch.cat\<close> of different widths\<close>
  | IndexError             \<comment> \<open>\<^verbatim>\<open>tensor[indices]\<close> or \<^verbatim>\<open>caps[:, 0]\<close> out of range\<close>
  | ZeroDivisionError      \<comment> \<open>\<^verbatim>\<open>batch_id % 0\<close>\<close>

subsection \<open>Configuration, files and observable actions\<close>

text \<open>The options of \<^verbatim>\<open>argparse\<close> that the three functions read.\<close>

record args =
  epochs :: int
  print_freq :: int
  sampling_method :: string
  cnn_architecture :: string
  max_len :: int
  storage :: string
  dataset :: string
  gen_checkpoint_filename :: string
  dis_checkpoint_filename :: string
  use_image_features :: bool
  save_model :: bool
  save_stats :: bool

text \<open>
  A file written by \<^verbatim>\<open>torch.save\<close> holds a dictionary from keys to state dictionaries;
  any other regular file makes \<^verbatim>\<open>torch.load\<close> raise. The file system maps a path to the
  regular file there; \<^verbatim>\<open>path.isfile\<close> is membership in its domain.
\<close>

datatype 'p ckpt_file = Checkpoint "string \<rightharpoonup> 'p" | NotACheckpoint

type_synonym 'p fs = "string \<rightharpoonup> 'p ckpt_file"

text \<open>
  A cell of a log line or of a CSV row: the epoch and the batch index are integers, the
  time, the losses and the accuracies are floats.
\<close>

datatype cell = IntCell int | FloatCell rat

text \<open>
  The two messages given to \<^verbatim>\<open>logging.info\<close>: the per-batch line, as the positional
  arguments of its format string
  \<^verbatim>\<open>Epoch: [{}] Batch: [{}] Time per batch: [{:.3f}] Loss [{:.4f}]({:.3f}) Accuracy [{:.4f}]({:.3f})\<close>,
  and \<^verbatim>\<open>'Completed epoch: ' + str(e)\<close>.
\<close>

datatype log_msg = TrainLine "cell list" | EpochDone nat

text \<open>The actions of the process on the outside world, in the order they happen.\<close>

datatype event =
    TorchLoad string
  | TorchSave string
  | LogInfo log_msg
  | CsvAppend string "cell list"

type_synonym 'img batch = "'img list \<times> int list list \<times> int list"

text \<open>
  The collaborators the script imports from \<^verbatim>\<open>models\<close>, \<^verbatim>\<open>utils\<close>, \<^verbatim>\<open>datasets\<close> and
  \<^verbatim>\<open>torch\<close>, and the inputs it reads from its environment, as parameters:
  the parsed vocabulary file (\<open>None\<close> when it cannot be opened), the freshly initialised
  models and optimizer, the batches the data loader yields in a given epoch (the caption
  lengths already as after \<^verbatim>\<open>squeeze(-1)\<close>), the encoder's forward pass,
  \<^verbatim>\<open>generator.sample\<close> (its fake captions; the hidden states are dropped by the caller),
  \<^verbatim>\<open>pad_generated_captions\<close>, the permutation \<^verbatim>\<open>torch.randperm\<close> draws at a given epoch
  and batch, the discriminator's forward pass, \<^verbatim>\<open>BCELoss\<close> (the value of
  \<^verbatim>\<open>loss.item()\<close>), the effect of \<^verbatim>\<open>zero_grad\<close>, \<^verbatim>\<open>backward\<close> and \<^verbatim>\<open>step\<close> on the
  discriminator and optimizer state, \<^verbatim>\<open>binary_accuracy\<close>, the wall-clock time a batch
  took, and the directories that exist. The script creates no directory, so these are the
  same during the whole run.
\<close>

record ('p, 'img) env =
  word_index_file :: "(string \<rightharpoonup> int) option"
  new_generator :: 'p
  new_discriminator :: 'p
  new_optimizer :: 'p
  new_encoder :: "string \<Rightarrow> 'p"
  train_loader :: "nat \<Rightarrow> 'img batch list"
  encode :: "'p \<Rightarrow> 'img list \<Rightarrow> 'img list"
  sample :: "'p \<Rightarrow> int \<Rightarrow> nat \<Rightarrow> 'img list \<Rightarrow> int list \<Rightarrow> string \<Rightarrow> int list list"
  pad_generated_captions :: "int list list \<Rightarrow> (string \<rightharpoonup> int) \<Rightarrow> int list list \<times> int list"
  randperm :: "nat \<Rightarrow> nat \<Rightarrow> nat \<Rightarrow> nat list"
  forward :: "'p \<Rightarrow> 'img list \<Rightarrow> int list list \<Rightarrow> int list \<Rightarrow> rat list"
  criterion :: "rat list \<Rightarrow> rat list \<Rightarrow> rat"
  backward_step :: "'p \<times> 'p \<Rightarrow> 'img list \<times> int list list \<times> int list \<Rightarrow> rat list \<Rightarrow> 'p \<times> 'p"
  binary_accuracy :: "rat list \<Rightarrow> rat list \<Rightarrow> rat"
  elapsed :: "nat \<Rightarrow> nat \<Rightarrow> rat"
  directories :: "string set"

subsection \<open>The running meters\<close>

text \<open>
  Modelled from the spec: the class \<^verbatim>\<open>AverageMeter\<close> of the module \<^verbatim>\<open>utils\<close>, whose
  code is missing. The spec describes a running metric as a pair of the current value and the
  cumulative average over all updates seen so far, starting from a reset state: the meter
  keeps the last value, the sum and the number of the updates, and their quotient.
\<close>

record AverageMeter =
  val :: rat
  avg :: rat
  msum :: rat
  mcount :: nat

definition AverageMeter_init :: AverageMeter where
  "AverageMeter_init = \<lparr>val = 0, avg = 0, msum = 0, mcount = 0\<rparr>"

definition AverageMeter_update :: "AverageMeter \<Rightarrow> rat \<Rightarrow> AverageMeter" where
  "AverageMeter_update m v =
     \<lparr>val = v, avg = (msum m + v) / of_nat (mcount m + 1),
      msum = msum m + v, mcount = mcount m + 1\<rparr>"

subsection \<open>Paths\<close>

text \<open>\<^verbatim>\<open>str(e)\<close> of a natural number: its decimal digits.\<close>

definition digit :: "nat \<Rightarrow> char" where
  "digit d = char_of (48 + d)"

fun str_nat :: "nat \<Rightarrow> string" where
  "str_nat n = (if n < 10 then [digit n] else str_nat (n div 10) @ [digit (n mod 10)])"

declare str_nat.simps [simp del]

text \<open>
  The directory a path lies in: the part before its last \<^verbatim>\<open>/\<close>. Opening a file for
  writing raises when this directory does not exist.
\<close>

definition parent_dir :: "string \<Rightarrow> string" where
  "parent_dir p =
     snd (foldr (\<lambda>c (seen, acc). if seen then (True, c # acc) else (c = CHR ''/'', [])) p
            (False, []))"

definition gen_checkpoint_path :: "args \<Rightarrow> string" where
  "gen_checkpoint_path a =
     storage a @ ''/ckpts/'' @ dataset a @ ''/gen/'' @ gen_checkpoint_filename a"

definition dis_checkpoint_path :: "args \<Rightarrow> string" where
  "dis_checkpoint_path a =
     storage a @ ''/ckpts/'' @ dataset a @ ''/dis/'' @ dis_checkpoint_filename a"

text \<open>The path \<^verbatim>\<open>main\<close> saves the checkpoint of epoch \<open>e\<close> to (lines 96 to 99).\<close>

definition save_path :: "args \<Rightarrow> nat \<Rightarrow> string" where
  "save_path a e =
     storage a @ ''/ckpts/'' @ dataset a @ ''/dis/'' @ ''pretrain_dis'' @ ''_'' @ str_nat e
       @ ''_'' @ sampling_method a @ ''_'' @ cnn_architecture a @ ''.pth''"

text \<open>The path of the CSV record (lines 162 and 163).\<close>

definition stats_path :: "args \<Rightarrow> string" where
  "stats_path a =
     storage a @ ''/stats/'' @ dataset a @ ''/dis/'' @ ''pretrain_dis'' @ ''_''
       @ sampling_method a @ ''_'' @ cnn_architecture a @ ''.csv''"

subsection \<open>Tensor operations\<close>

text \<open>\<^verbatim>\<open>torch.max(t).item()\<close> of a one-dimensional tensor; it raises on an empty one.\<close>

fun tensor_max :: "int list \<Rightarrow> error + int" where
  "tensor_max [] = Inl RuntimeError"
| "tensor_max (x # xs) = Inr (fold max xs x)"

text \<open>\<^verbatim>\<open>t.shape[1]\<close> of a two-dimensional tensor given by its rows.\<close>

fun col_shape :: "'a list list \<Rightarrow> nat" where
  "col_shape [] = 0"
| "col_shape (r # rs) = length r"

text \<open>\<^verbatim>\<open>t[:, 0]\<close>: the first entry of every row; it raises when the rows are empty.\<close>

definition first_column :: "'a list list \<Rightarrow> error + 'a list" where
  "first_column t = (if list_all (\<lambda>r. r \<noteq> []) t then Inr (map hd t) else Inl IndexError)"

text \<open>\<^verbatim>\<open>torch.cat((a, b), dim=0)\<close> of two-dimensional tensors: the widths must agree.\<close>

definition cat_rows :: "'a list list \<Rightarrow> 'a list list \<Rightarrow> error + 'a list list" where
  "cat_rows a b =
     (if list_all (\<lambda>r. length r = col_shape a) b then Inr (a @ b) else Inl RuntimeError)"

text \<open>\<^verbatim>\<open>t[indices]\<close> along the first dimension; an index out of range raises.\<close>

definition index_select :: "'a list \<Rightarrow> nat list \<Rightarrow> error + 'a list" where
  "index_select t indices =
     (if list_all (\<lambda>i. i < length t) indices then Inr (map (\<lambda>i. t ! i) indices)
      else Inl IndexError)"

subsection \<open>\<^verbatim>\<open>sample_from_start\<close>\<close>

definition sample_from_start ::
  "('p, 'img) env \<Rightarrow> 'img list \<Rightarrow> int list list \<Rightarrow> int list \<Rightarrow> 'p \<Rightarrow> (string \<rightharpoonup> int) \<Rightarrow> args
     \<Rightarrow> error + (int list list \<times> int list)" where
  "sample_from_start env imgs caps cap_lens generator word_index a =
     (case tensor_max cap_lens of
        Inl err \<Rightarrow> Inl err
      | Inr m \<Rightarrow>
          (case first_column caps of
             Inl err \<Rightarrow> Inl err
           | Inr input_word \<Rightarrow>
               Inr (pad_generated_captions env
                     (sample env generator (max m (max_len a) - 1) (col_shape caps) imgs
                        input_word (sampling_method a))
                     word_index)))"

subsection \<open>The body of the batch loop of \<^verbatim>\<open>train\<close>\<close>

text \<open>
  Lines 139 to 147: the real and the fake captions and lengths are concatenated, the images
  duplicated, the labels built, and the four tensors indexed by the permutation drawn in
  line 138.
\<close>

definition label_mixer ::
  "'img list \<Rightarrow> int list list \<Rightarrow> int list \<Rightarrow> int list list \<Rightarrow> int list \<Rightarrow> nat list
     \<Rightarrow> error + ('img list \<times> int list list \<times> int list \<times> rat list)" where
  "label_mixer imgs caps cap_lens fake_caps fake_cap_lens indices =
     (case cat_rows caps fake_caps of
        Inl err \<Rightarrow> Inl err
      | Inr inputs \<Rightarrow>
          (let input_lens = cap_lens @ fake_cap_lens;
               imgs2 = imgs @ imgs;
               ones = replicate (length caps) 1;
               zeros = replicate (length caps) 0;
               targets = ones @ zeros
           in case index_select imgs2 indices of
                Inl err \<Rightarrow> Inl err
              | Inr imgs' \<Rightarrow>
                  (case index_select inputs indices of
                     Inl err \<Rightarrow> Inl err
                   | Inr inputs' \<Rightarrow>
                       (case index_select input_lens indices of
                          Inl err \<Rightarrow> Inl err
                        | Inr input_lens' \<Rightarrow>
                            (case index_select targets indices of
                               Inl err \<Rightarrow> Inl err
                             | Inr targets' \<Rightarrow> Inr (imgs', inputs', input_lens', targets'))))))"

text \<open>
  Lines 130 to 151 without the meters: one optimizer step on one batch. The result is the
  new discriminator and optimizer state, \<^verbatim>\<open>loss.item()\<close> and the batch accuracy.
\<close>

definition train_batch ::
  "('p, 'img) env \<Rightarrow> args \<Rightarrow> 'p option \<Rightarrow> 'p \<Rightarrow> (string \<rightharpoonup> int) \<Rightarrow> nat \<Rightarrow> nat \<Rightarrow> 'p \<times> 'p
     \<Rightarrow> 'img batch \<Rightarrow> error + (('p \<times> 'p) \<times> rat \<times> rat)" where
  "train_batch env a encoder generator word_index epoch batch_id st b =
     (case b of (imgs0, caps, cap_lens) \<Rightarrow>
       (case (if \<not> use_image_features a
              then (case encoder of None \<Rightarrow> Inl TypeError
                                  | Some enc \<Rightarrow> Inr (encode env enc imgs0))
              else Inr imgs0) of
          Inl err \<Rightarrow> Inl err
        | Inr imgs \<Rightarrow>
            (case sample_from_start env imgs caps cap_lens generator word_index a of
               Inl err \<Rightarrow> Inl err
             | Inr (fake_caps, fake_cap_lens) \<Rightarrow>
                 (case label_mixer imgs caps cap_lens fake_caps fake_cap_lens
                         (randperm env epoch batch_id (length caps * 2)) of
                    Inl err \<Rightarrow> Inl err
                  | Inr (imgs', inputs', input_lens', targets') \<Rightarrow>
                      (let preds = forward env (fst st) imgs' inputs' input_lens';
                           loss = criterion env preds targets';
                           st' = backward_step env st (imgs', inputs', input_lens') targets'
                       in Inr (st', loss, binary_accuracy env preds targets'))))))"

text \<open>The arguments of the log line (lines 158 and 159) and the CSV row (line 167).\<close>

definition log_fields :: "nat \<Rightarrow> nat \<Rightarrow> rat \<Rightarrow> AverageMeter \<Rightarrow> AverageMeter \<Rightarrow> cell list" where
  "log_fields epoch batch_id t losses acc =
     [IntCell (int epoch), IntCell (int batch_id), FloatCell t,
      FloatCell (avg losses), FloatCell (val losses), FloatCell (avg acc), FloatCell (val acc)]"

definition csv_fields :: "nat \<Rightarrow> nat \<Rightarrow> AverageMeter \<Rightarrow> AverageMeter \<Rightarrow> cell list" where
  "csv_fields epoch batch_id losses acc =
     [IntCell (int epoch), IntCell (int batch_id),
      FloatCell (avg losses), FloatCell (val losses), FloatCell (val acc), FloatCell (avg acc)]"

text \<open>
  Lines 153 to 167. Python's \<^verbatim>\<open>%\<close> raises on a zero divisor and otherwise takes the sign of
  the divisor, as \<open>mod\<close> on \<open>int\<close> does. The log line is emitted first; then
  \<^verbatim>\<open>open(..., 'a+')\<close> creates the CSV file if it is missing, and raises when its directory
  is. The result is the actions performed and the error raised, if any.
\<close>

definition report ::
  "('p, 'img) env \<Rightarrow> args \<Rightarrow> nat \<Rightarrow> nat \<Rightarrow> rat \<Rightarrow> AverageMeter \<Rightarrow> AverageMeter
     \<Rightarrow> event list \<times> (error + unit)" where
  "report env a epoch batch_id t losses acc =
     (if print_freq a = 0 then ([], Inl ZeroDivisionError)
      else if int batch_id mod print_freq a = 0
      then (if save_stats a
            then (if parent_dir (stats_path a) \<in> directories env
                  then ([LogInfo (TrainLine (log_fields epoch batch_id t losses acc)),
                         CsvAppend (stats_path a) (csv_fields epoch batch_id losses acc)],
                        Inr ())
                  else ([LogInfo (TrainLine (log_fields epoch batch_id t losses acc))],
                        Inl FileNotFoundError))
            else ([LogInfo (TrainLine (log_fields epoch batch_id t losses acc))], Inr ()))
      else ([], Inr ()))"

text \<open>The batches at which \<open>report\<close> raises.\<close>

definition report_raises :: "('p, 'img) env \<Rightarrow> args \<Rightarrow> nat \<Rightarrow> bool" where
  "report_raises env a batch_id =
     (print_freq a = 0
      \<or> (int batch_id mod print_freq a = 0 \<and> save_stats a
         \<and> parent_dir (stats_path a) \<notin> directories env))"

text \<open>
  The loop of line 126 over the enumerated batches, with the loop state explicit: the batch
  index, the two meters and the discriminator and optimizer state. The result is the
  actions performed and either the error that stopped the loop or the final state.
\<close>

fun train_loop ::
  "('p, 'img) env \<Rightarrow> args \<Rightarrow> nat \<Rightarrow> 'p option \<Rightarrow> 'p \<Rightarrow> (string \<rightharpoonup> int) \<Rightarrow> nat
     \<Rightarrow> AverageMeter \<Rightarrow> AverageMeter \<Rightarrow> 'p \<times> 'p \<Rightarrow> 'img batch list
     \<Rightarrow> event list \<times> (error + 'p \<times> 'p)" where
  "train_loop env a epoch encoder generator word_index batch_id losses acc st [] =
     ([], Inr st)"
| "train_loop env a epoch encoder generator word_index batch_id losses acc st (b # bs) =
     (case train_batch env a encoder generator word_index epoch batch_id st b of
        Inl err \<Rightarrow> ([], Inl err)
      | Inr (st', loss, accuracy) \<Rightarrow>
          (let losses' = AverageMeter_update losses loss;
               acc' = AverageMeter_update acc accuracy
           in case report env a epoch batch_id (elapsed env epoch batch_id) losses' acc' of
                (evs, Inl err) \<Rightarrow> (evs, Inl err)
              | (evs, Inr u) \<Rightarrow>
                  (case train_loop env a epoch encoder generator word_index (batch_id + 1)
                          losses' acc' st' bs of
                     (evs', r) \<Rightarrow> (evs @ evs', r))))"

subsection \<open>\<^verbatim>\<open>train\<close>\<close>

text \<open>
  Lines 118 to 126: two new meters, \<^verbatim>\<open>encoder.eval()\<close> unless precomputed features are in
  use, then the batch loop.
\<close>

definition train ::
  "('p, 'img) env \<Rightarrow> args \<Rightarrow> nat \<Rightarrow> 'p option \<Rightarrow> 'p \<Rightarrow> 'p \<times> 'p \<Rightarrow> (string \<rightharpoonup> int)
     \<Rightarrow> event list \<times> (error + 'p \<times> 'p)" where
  "train env a epoch encoder generator st word_index =
     (let losses = AverageMeter_init;
          acc = AverageMeter_init
      in if \<not> use_image_features a \<and> encoder = None then ([], Inl AttributeError)
         else train_loop env a epoch encoder generator word_index 0 losses acc st
                (train_loader env epoch))"

subsection \<open>\<^verbatim>\<open>main\<close>\<close>

text \<open>Lines 57 to 60: the generator's checkpoint is loaded when its file exists.\<close>

definition load_generator :: "'p fs \<Rightarrow> args \<Rightarrow> 'p \<Rightarrow> event list \<times> (error + 'p)" where
  "load_generator fs a generator =
     (case fs (gen_checkpoint_path a) of
        None \<Rightarrow> ([], Inr generator)
      | Some NotACheckpoint \<Rightarrow> ([TorchLoad (gen_checkpoint_path a)], Inl UnpicklingError)
      | Some (Checkpoint checkpoint) \<Rightarrow>
          ([TorchLoad (gen_checkpoint_path a)],
           (case checkpoint ''gen_state_dict'' of
              None \<Rightarrow> Inl (KeyError ''gen_state_dict'')
            | Some g \<Rightarrow> Inr g)))"

text \<open>Lines 62 to 66: the same for the discriminator and its optimizer.\<close>

definition load_discriminator ::
  "'p fs \<Rightarrow> args \<Rightarrow> 'p \<times> 'p \<Rightarrow> event list \<times> (error + 'p \<times> 'p)" where
  "load_discriminator fs a st =
     (case fs (dis_checkpoint_path a) of
        None \<Rightarrow> ([], Inr st)
      | Some NotACheckpoint \<Rightarrow> ([TorchLoad (dis_checkpoint_path a)], Inl UnpicklingError)
      | Some (Checkpoint checkpoint) \<Rightarrow>
          ([TorchLoad (dis_checkpoint_path a)],
           (case checkpoint ''dis_state_dict'' of
              None \<Rightarrow> Inl (KeyError ''dis_state_dict'')
            | Some d \<Rightarrow>
                (case checkpoint ''dis_optimizer_state_dict'' of
                   None \<Rightarrow> Inl (KeyError ''dis_optimizer_state_dict'')
                 | Some opt \<Rightarrow> Inr (d, opt)))))"

text \<open>
  Lines 94 to 99: the dictionary \<^verbatim>\<open>torch.save\<close> writes, and the write. It replaces a file
  that is already at the path, and raises when the directory of the path does not exist
  (a \<^verbatim>\<open>FileNotFoundError\<close> from \<^verbatim>\<open>open\<close>; later versions of the library raise a
  \<^verbatim>\<open>RuntimeError\<close> there), writing nothing.
\<close>

definition saved_checkpoint :: "'p \<times> 'p \<Rightarrow> 'p ckpt_file" where
  "saved_checkpoint st =
     Checkpoint [''dis_state_dict'' \<mapsto> fst st, ''optimizer_state_dict'' \<mapsto> snd st]"

definition torch_save ::
  "('p, 'img) env \<Rightarrow> 'p fs \<Rightarrow> args \<Rightarrow> nat \<Rightarrow> 'p \<times> 'p \<Rightarrow> error + 'p fs" where
  "torch_save env fs a e st =
     (if parent_dir (save_path a e) \<in> directories env
      then Inr (fs(save_path a e \<mapsto> saved_checkpoint st))
      else Inl FileNotFoundError)"

text \<open>Lines 36 and 68 to 85: the encoder is built only for raw images.\<close>

definition make_encoder :: "('p, 'img) env \<Rightarrow> args \<Rightarrow> 'p option" where
  "make_encoder env a =
     (if use_image_features a then None else Some (new_encoder env (cnn_architecture a)))"

text \<open>
  The loop of lines 87 to 100 over the epochs of \<^verbatim>\<open>range(args.epochs)\<close>, with the file
  system and the discriminator and optimizer state explicit. An epoch is logged as
  completed after its checkpoint is saved; an error of \<^verbatim>\<open>train\<close> or of the save ends the
  loop.
\<close>

fun epoch_loop ::
  "('p, 'img) env \<Rightarrow> args \<Rightarrow> 'p option \<Rightarrow> 'p \<Rightarrow> (string \<rightharpoonup> int) \<Rightarrow> 'p fs \<Rightarrow> 'p \<times> 'p
     \<Rightarrow> nat list \<Rightarrow> ('p fs \<times> event list) \<times> (error + unit)" where
  "epoch_loop env a encoder generator word_index fs st [] = ((fs, []), Inr ())"
| "epoch_loop env a encoder generator word_index fs st (e # es) =
     (case train env a e encoder generator st word_index of
        (evs, Inl err) \<Rightarrow> ((fs, evs), Inl err)
      | (evs, Inr st') \<Rightarrow>
          (case (if save_model a
                 then (case torch_save env fs a e st' of
                         Inl err \<Rightarrow> Inl err
                       | Inr fs' \<Rightarrow> Inr (fs', [TorchSave (save_path a e)]))
                 else Inr (fs, [])) of
             Inl err \<Rightarrow> ((fs, evs), Inl err)
           | Inr (fs', saved) \<Rightarrow>
               (case epoch_loop env a encoder generator word_index fs' st' es of
                  ((fs'', evs'), r) \<Rightarrow>
                    ((fs'', evs @ saved @ [LogInfo (EpochDone e)] @ evs'), r))))"

text \<open>
  \<^verbatim>\<open>main\<close>: the vocabulary, the models, the two optional loads, the encoder, the epochs.
  The result is the file system afterwards, the actions performed, and the error that
  stopped the process, if any.
\<close>

definition main ::
  "('p, 'img) env \<Rightarrow> args \<Rightarrow> 'p fs \<Rightarrow> ('p fs \<times> event list) \<times> (error + unit)" where
  "main env a fs =
     (case word_index_file env of
        None \<Rightarrow> ((fs, []), Inl FileNotFoundError)
      | Some word_index \<Rightarrow>
          (case load_generator fs a (new_generator env) of
             (l1, Inl err) \<Rightarrow> ((fs, l1), Inl err)
           | (l1, Inr generator) \<Rightarrow>
               (case load_discriminator fs a (new_discriminator env, new_optimizer env) of
                  (l2, Inl err) \<Rightarrow> ((fs, l1 @ l2), Inl err)
                | (l2, Inr st) \<Rightarrow>
                    (case epoch_loop env a (make_encoder env a) generator word_index fs st
                            [0..<nat (epochs a)] of
                       ((fs', evs), r) \<Rightarrow> ((fs', l1 @ l2 @ evs), r)))))"

subsection \<open>Reading a run\<close>

text \<open>The parts of a sequence of actions: the paths loaded and saved, the rows appended to
  the CSV record, the epochs logged as completed, and the per-batch log lines.\<close>

definition loaded_paths :: "event list \<Rightarrow> string list" where
  "loaded_paths evs = concat (map (\<lambda>ev. case ev of TorchLoad p \<Rightarrow> [p] | _ \<Rightarrow> []) evs)"

definition saved_paths :: "event list \<Rightarrow> string list" where
  "saved_paths evs = concat (map (\<lambda>ev. case ev of TorchSave p \<Rightarrow> [p] | _ \<Rightarrow> []) evs)"

definition csv_rows :: "event list \<Rightarrow> cell list list" where
  "csv_rows evs = concat (map (\<lambda>ev. case ev of CsvAppend p row \<Rightarrow> [row] | _ \<Rightarrow> []) evs)"

definition completed_epochs :: "event list \<Rightarrow> nat list" where
  "completed_epochs evs =
     concat (map (\<lambda>ev. case ev of LogInfo (EpochDone e) \<Rightarrow> [e] | _ \<Rightarrow> []) evs)"

definition train_lines :: "event list \<Rightarrow> cell list list" where
  "train_lines evs =
     concat (map (\<lambda>ev. case ev of LogInfo (TrainLine cells) \<Rightarrow> [cells] | _ \<Rightarrow> []) evs)"

text \<open>
  The loss and the accuracy of every optimizer step performed in one pass of the batch
  loop, in order: the values given to the two meters in lines 150 and 151. The pass ends
  before a batch whose step raises, and after a batch whose report raises.
\<close>

fun epoch_metrics ::
  "('p, 'img) env \<Rightarrow> args \<Rightarrow> 'p option \<Rightarrow> 'p \<Rightarrow> (string \<rightharpoonup> int) \<Rightarrow> nat \<Rightarrow> nat \<Rightarrow> 'p \<times> 'p
     \<Rightarrow> 'img batch list \<Rightarrow> (rat \<times> rat) list" where
  "epoch_metrics env a encoder generator word_index epoch batch_id st [] = []"
| "epoch_metrics env a encoder generator word_index epoch batch_id st (b # bs) =
     (case train_batch env a encoder generator word_index epoch batch_id st b of
        Inl err \<Rightarrow> []
      | Inr (st', loss, accuracy) \<Rightarrow>
          (loss, accuracy)
            # (if report_raises env a batch_id then []
               else epoch_metrics env a encoder generator word_index epoch (batch_id + 1) st'
                      bs))"

text \<open>The same for one call of \<^verbatim>\<open>train\<close>, whose loop starts at batch 0.\<close>

definition train_metrics ::
  "('p, 'img) env \<Rightarrow> args \<Rightarrow> nat \<Rightarrow> 'p option \<Rightarrow> 'p \<Rightarrow> 'p \<times> 'p \<Rightarrow> (string \<rightharpoonup> int)
     \<Rightarrow> (rat \<times> rat) list" where
  "train_metrics env a epoch encoder generator st word_index =
     epoch_metrics env a encoder generator word_index epoch 0 st (train_loader env epoch)"

text \<open>The actions of \<open>report\<close>.\<close>

definition report_events ::
  "('p, 'img) env \<Rightarrow> args \<Rightarrow> nat \<Rightarrow> nat \<Rightarrow> rat \<Rightarrow> AverageMeter \<Rightarrow> AverageMeter
     \<Rightarrow> event list" where
  "report_events env a epoch batch_id t losses acc =
     fst (report env a epoch batch_id t losses acc)"

text \<open>
  Lines 31 to 66 of \<^verbatim>\<open>main\<close> on their own: the vocabulary and the two optional loads. The
  result is the loads performed and either the error raised or the vocabulary, the
  generator and the discriminator and optimizer state the epochs start from.
\<close>

definition startup ::
  "('p, 'img) env \<Rightarrow> args \<Rightarrow> 'p fs
     \<Rightarrow> event list \<times> (error + (string \<rightharpoonup> int) \<times> 'p \<times> 'p \<times> 'p)" where
  "startup env a fs =
     (case word_index_file env of
        None \<Rightarrow> ([], Inl FileNotFoundError)
      | Some word_index \<Rightarrow>
          (case load_generator fs a (new_generator env) of
             (l1, Inl err) \<Rightarrow> (l1, Inl err)
           | (l1, Inr generator) \<Rightarrow>
               (case load_discriminator fs a (new_discriminator env, new_optimizer env) of
                  (l2, Inl err) \<Rightarrow> (l1 @ l2, Inl err)
                | (l2, Inr st) \<Rightarrow> (l1 @ l2, Inr (word_index, generator, st)))))"

text \<open>
  The discriminator and optimizer state that each epoch of a list starts from when every
  call of \<^verbatim>\<open>train\<close> before it returns: the first from the given state, the next from what
  \<^verbatim>\<open>train\<close> returned for the one before.
\<close>

fun epoch_states ::
  "('p, 'img) env \<Rightarrow> args \<Rightarrow> 'p option \<Rightarrow> 'p \<Rightarrow> (string \<rightharpoonup> int) \<Rightarrow> 'p \<times> 'p \<Rightarrow> nat list
     \<Rightarrow> ('p \<times> 'p) list" where
  "epoch_states env a encoder generator word_index st [] = []"
| "epoch_states env a encoder generator word_index st (e # es) =
     st # (case snd (train env a e encoder generator st word_index) of
             Inl err \<Rightarrow> []
           | Inr st' \<Rightarrow> epoch_states env a encoder generator word_index st' es)"

text \<open>
  What one epoch of \<open>main\<close> does when nothing raises: the actions of \<^verbatim>\<open>train\<close> from the
  state the epoch starts from, the save when saving is enabled, the completion message.
\<close>

definition epoch_actions ::
  "('p, 'img) env \<Rightarrow> args \<Rightarrow> 'p option \<Rightarrow> 'p \<Rightarrow> (string \<rightharpoonup> int) \<Rightarrow> nat \<times> 'p \<times> 'p
     \<Rightarrow> event list" where
  "epoch_actions env a encoder generator word_index es =
     fst (train env a (fst es) encoder generator (snd es) word_index)
       @ (if save_model a then [TorchSave (save_path a (fst es))] else [])
       @ [LogInfo (EpochDone (fst es))]"

text \<open>A new meter after the updates \<open>xs\<close>, and the arithmetic mean of a list.\<close>

definition meter_after :: "rat list \<Rightarrow> AverageMeter" where
  "meter_after xs = foldl AverageMeter_update AverageMeter_init xs"

definition mean :: "rat list \<Rightarrow> rat" where
  "mean xs = sum_list xs / of_nat (length xs)"

text \<open>
  The log line as the claim words it, current value before running average: the order the
  spec's sentence gives, for comparison with \<open>log_fields\<close>.
\<close>

definition spec_log_fields :: "nat \<Rightarrow> nat \<Rightarrow> rat \<Rightarrow> AverageMeter \<Rightarrow> AverageMeter \<Rightarrow> cell list" where
  "spec_log_fields epoch batch_id t losses acc =
     [IntCell (int epoch), IntCell (int batch_id), FloatCell t,
      FloatCell (val losses), FloatCell (avg losses), FloatCell (val acc), FloatCell (avg acc)]"

subsection \<open>Resuming from a saved checkpoint\<close>

text \<open>
  The options of a later process that is pointed, through
  \<^verbatim>\<open>--dis-checkpoint-filename\<close>, at the checkpoint this configuration saved after
  epoch \<open>e\<close>.
\<close>

definition resume_args :: "args \<Rightarrow> nat \<Rightarrow> args" where
  "resume_args a e =
     a\<lparr>dis_checkpoint_filename :=
          ''pretrain_dis'' @ ''_'' @ str_nat e @ ''_'' @ sampling_method a @ ''_''
            @ cnn_architecture a @ ''.pth''\<rparr>"

subsection \<open>The examples of a mixed batch\<close>

text \<open>
  Example \<open>k\<close> of the concatenated batch before the permutation: for \<open>k\<close> below the
  number of real captions, real caption \<open>k\<close> with its length, its image and the label 1;
  above, the fake caption generated for image \<open>k - N\<close> with its length, that image and the
  label 0.
\<close>

definition mixed_example ::
  "'img list \<Rightarrow> int list list \<Rightarrow> int list \<Rightarrow> int list list \<Rightarrow> int list \<Rightarrow> nat
     \<Rightarrow> 'img \<times> int list \<times> int \<times> rat" where
  "mixed_example imgs caps cap_lens fake_caps fake_cap_lens k =
     (if k < length caps then (imgs ! k, caps ! k, cap_lens ! k, 1)
      else (imgs ! (k - length caps), fake_caps ! (k - length caps),
            fake_cap_lens ! (k - length caps), 0))"

subsection \<open>A concrete configuration\<close>

text \<open>
  A small run on which the theorems below are exercised: state dictionaries and images are
  natural numbers, every epoch has one batch of two captions of width three, the generator
  continues each start token with two tokens 9, the permutation drawn is the reversal, the
  loss of a step is \<open>2 d + 1\<close> for the discriminator state \<open>d\<close> before the step, each
  step increments the discriminator and the optimizer state, the accuracy of a step is the
  inverse of its loss and every batch takes an eighth of a second. The two directories the
  options below write to exist.
\<close>

definition demo_env :: "(nat, nat) env" where
  "demo_env =
     \<lparr>word_index_file = Some Map.empty,
      new_generator = 0, new_discriminator = 0, new_optimizer = 0,
      new_encoder = (\<lambda>_. 0),
      train_loader = (\<lambda>e. [([7, 8], [[1, 2, 3], [1, 4, 5]], [3, 3])]),
      encode = (\<lambda>_ imgs. imgs),
      sample = (\<lambda>g cap_len col imgs input_word method. map (\<lambda>w. [w, 9, 9]) input_word),
      pad_generated_captions = (\<lambda>caps wi. (caps, map (\<lambda>c. int (length c)) caps)),
      randperm = (\<lambda>e b n. [3, 2, 1, 0]),
      forward = (\<lambda>d imgs inputs lens. map (\<lambda>_. of_nat (2 * d + 1)) imgs),
      criterion = (\<lambda>preds targets. hd preds),
      backward_step = (\<lambda>st _ _. (fst st + 1, snd st + 1)),
      binary_accuracy = (\<lambda>preds targets. 1 / hd preds),
      elapsed = (\<lambda>_ _. 1 / 8),
      directories = {''./ckpts/flickr8k/dis'', ''./stats/flickr8k/dis''}\<rparr>"

text \<open>The same with two batches in every epoch.\<close>

definition demo_env2 :: "(nat, nat) env" where
  "demo_env2 =
     demo_env\<lparr>train_loader :=
       (\<lambda>e. [([7, 8], [[1, 2, 3], [1, 4, 5]], [3, 3]), ([5, 6], [[1, 6, 7], [1, 8, 2]], [3, 2])])\<rparr>"

definition demo_args :: args where
  "demo_args =
     \<lparr>epochs = 2, print_freq = 1, sampling_method = ''multinomial'',
      cnn_architecture = ''resnet152'', max_len = 20, storage = ''.'',
      dataset = ''flickr8k'', gen_checkpoint_filename = ''mle_gen_resnet152_5.pth'',
      dis_checkpoint_filename = '''', use_image_features = True, save_model = True,
      save_stats = True\<rparr>"

section \<open>Properties\<close>

subsection \<open>Evaluating a concrete run\<close>

lemma char_of_digits: "char_of (48::nat) = CHR ''0''" "char_of (49::nat) = CHR ''1''"
  by code_simp+

lemma demo_dirs:
  "parent_dir ''./ckpts/flickr8k/dis/pretrain_dis_0_multinomial_resnet152.pth''
     = ''./ckpts/flickr8k/dis''"
  "parent_dir ''./ckpts/flickr8k/dis/pretrain_dis_1_multinomial_resnet152.pth''
     = ''./ckpts/flickr8k/dis''"
  "parent_dir ''./stats/flickr8k/dis/pretrain_dis_multinomial_resnet152.csv''
     = ''./stats/flickr8k/dis''"
  by code_simp+

lemmas run_defs = main_def load_generator_def load_discriminator_def gen_checkpoint_path_def
  dis_checkpoint_path_def make_encoder_def train_def train_batch_def sample_from_start_def
  label_mixer_def cat_rows_def index_select_def first_column_def report_def log_fields_def
  csv_fields_def stats_path_def save_path_def torch_save_def saved_checkpoint_def
  AverageMeter_init_def AverageMeter_update_def demo_env_def demo_env2_def demo_args_def
  str_nat.simps digit_def char_of_digits demo_dirs Let_def loaded_paths_def saved_paths_def
  csv_rows_def completed_epochs_def train_lines_def report_raises_def

subsection \<open>Saving and loading the discriminator checkpoint\<close>

lemma dis_checkpoint_path_resume: "dis_checkpoint_path (resume_args a e) = save_path a e"
  by (simp add: dis_checkpoint_path_def resume_args_def save_path_def)

text \<open>
  C1. The claim is that the checkpoint written at an epoch boundary, loaded at startup,
  restores the saved discriminator and optimizer state without error. The save stores the
  optimizer state under the key \<^verbatim>\<open>optimizer_state_dict\<close>, the load looks it up under
  \<^verbatim>\<open>dis_optimizer_state_dict\<close>: for every file system, configuration, epoch and saved
  state, whenever the save can write its file (the directory is there), loading the file
  that was just saved stops with a \<^verbatim>\<open>KeyError\<close>, after the file was read, and no state is
  returned.
\<close>

theorem checkpoint_roundtrip_key_error:
  assumes "parent_dir (save_path a e) \<in> directories env"
  shows "\<exists>fs'. torch_save env fs a e st = Inr fs'
      \<and> load_discriminator fs' (resume_args a e) st0 =
          ([TorchLoad (save_path a e)], Inl (KeyError ''dis_optimizer_state_dict''))"
  using assms
  by (simp add: load_discriminator_def torch_save_def saved_checkpoint_def
      dis_checkpoint_path_resume)

theorem checkpoint_roundtrip_key_error_witness:
  "parent_dir (save_path demo_args 0) \<in> directories demo_env
   \<and> (\<exists>fs'. torch_save demo_env Map.empty demo_args 0 (1, 1) = Inr fs'
        \<and> load_discriminator fs' (resume_args demo_args 0) (0, 0) =
            ([TorchLoad (save_path demo_args 0)], Inl (KeyError ''dis_optimizer_state_dict'')))"
proof -
  have d: "parent_dir (save_path demo_args 0) \<in> directories demo_env"
    by (simp add: run_defs)
  from checkpoint_roundtrip_key_error [OF d, of Map.empty "(1, 1)" "(0, 0)"] d
  show ?thesis by blast
qed

subsection \<open>The label mixer\<close>

lemma perm_indices_bound:
  assumes "mset indices = mset [0..<n]"
  shows "list_all (\<lambda>i. i < n) indices"
proof -
  from assms have "set indices = set [0..<n]" by (rule mset_eq_setD)
  then show ?thesis by (simp add: list_all_iff)
qed

lemma perm_indices_length:
  assumes "mset indices = mset [0..<n]"
  shows "length indices = n"
  using mset_eq_length [OF assms] by simp

lemma index_select_perm:
  assumes "mset indices = mset [0..<length t]"
  shows "index_select t indices = Inr (map (\<lambda>i. t ! i) indices)"
  using perm_indices_bound [OF assms] by (simp add: index_select_def)

text \<open>Indexing a tensor by a permutation of its positions keeps its entries.\<close>

lemma mset_select_perm:
  assumes "mset indices = mset [0..<length t]"
  shows "mset (map (\<lambda>i. t ! i) indices) = mset t"
proof -
  have "mset (map (\<lambda>i. t ! i) indices) = image_mset (\<lambda>i. t ! i) (mset indices)" by simp
  also have "\<dots> = image_mset (\<lambda>i. t ! i) (mset [0..<length t])" by (simp only: assms)
  also have "\<dots> = mset (map (\<lambda>i. t ! i) [0..<length t])" by simp
  also have "\<dots> = mset t" by (simp only: map_nth)
  finally show ?thesis .
qed

text \<open>
  On a well-formed batch (as many images, lengths, fake captions and fake lengths as real
  captions, the fake captions as wide as the real ones) and a permutation of the \<open>2 N\<close>
  positions, no operation of the mixer raises, and its four results are the concatenated
  tensors read through the permutation.
\<close>

lemma label_mixer_result:
  assumes "length imgs = length caps" "length cap_lens = length caps"
    and "length fake_caps = length caps" "length fake_cap_lens = length caps"
    and "\<forall>r \<in> set fake_caps. length r = col_shape caps"
    and "mset indices = mset [0..<2 * length caps]"
  shows "label_mixer imgs caps cap_lens fake_caps fake_cap_lens indices =
     Inr (map (\<lambda>i. (imgs @ imgs) ! i) indices,
          map (\<lambda>i. (caps @ fake_caps) ! i) indices,
          map (\<lambda>i. (cap_lens @ fake_cap_lens) ! i) indices,
          map (\<lambda>i. (replicate (length caps) 1 @ replicate (length caps) 0) ! i) indices)"
proof -
  have c: "cat_rows caps fake_caps = Inr (caps @ fake_caps)"
    using assms(5) by (simp add: cat_rows_def list_all_iff)
  have 1: "index_select (imgs @ imgs) indices = Inr (map (\<lambda>i. (imgs @ imgs) ! i) indices)"
    by (rule index_select_perm) (simp add: assms mult_2)
  have 2: "index_select (caps @ fake_caps) indices
      = Inr (map (\<lambda>i. (caps @ fake_caps) ! i) indices)"
    by (rule index_select_perm) (simp add: assms mult_2)
  have 3: "index_select (cap_lens @ fake_cap_lens) indices
      = Inr (map (\<lambda>i. (cap_lens @ fake_cap_lens) ! i) indices)"
    by (rule index_select_perm) (simp add: assms mult_2)
  have 4: "index_select (replicate (length caps) (1::rat) @ replicate (length caps) 0) indices
      = Inr (map (\<lambda>i. (replicate (length caps) 1 @ replicate (length caps) 0) ! i) indices)"
    by (rule index_select_perm) (simp add: assms mult_2)
  show ?thesis
    by (simp add: label_mixer_def c 1 2 3 4)
qed

text \<open>
  C4. For a batch of \<open>N\<close> real captions (with \<open>N\<close> images, lengths, fake captions and fake
  lengths, the fake captions as wide as the real ones) and any permutation of the \<open>2 N\<close>
  positions, the mixer returns a batch whose images, captions, lengths and labels all have
  \<open>2 N\<close> entries; the labels are the vector of \<open>N\<close> ones followed by \<open>N\<close> zeros read
  through the permutation, and as a multiset they are exactly \<open>N\<close> ones and \<open>N\<close> zeros.
\<close>

theorem label_mixer_labels:
  assumes "length imgs = length caps" "length cap_lens = length caps"
    and "length fake_caps = length caps" "length fake_cap_lens = length caps"
    and "\<forall>r \<in> set fake_caps. length r = col_shape caps"
    and "mset indices = mset [0..<2 * length caps]"
  shows "\<exists>imgs' inputs' input_lens' targets'.
      label_mixer imgs caps cap_lens fake_caps fake_cap_lens indices
        = Inr (imgs', inputs', input_lens', targets')
      \<and> length imgs' = 2 * length caps \<and> length inputs' = 2 * length caps
      \<and> length input_lens' = 2 * length caps \<and> length targets' = 2 * length caps
      \<and> targets' = map (\<lambda>i. (replicate (length caps) 1 @ replicate (length caps) 0) ! i) indices
      \<and> mset targets' = replicate_mset (length caps) 1 + replicate_mset (length caps) 0"
proof -
  let ?targets = "replicate (length caps) (1::rat) @ replicate (length caps) 0"
  have len: "length indices = 2 * length caps"
    using assms(6) by (rule perm_indices_length)
  have "mset (map (\<lambda>i. ?targets ! i) indices) = mset ?targets"
    by (rule mset_select_perm) (simp add: assms mult_2)
  then have m: "mset (map (\<lambda>i. ?targets ! i) indices)
      = replicate_mset (length caps) 1 + replicate_mset (length caps) 0"
    by simp
  show ?thesis
    using label_mixer_result [OF assms] len m by simp
qed

theorem label_mixer_labels_witness:
  "mset [3, 2, 1, 0::nat] = mset [0..<2 * length [[1, 2, 3], [1, 4, 5::int]]]
   \<and> (\<exists>imgs' inputs' input_lens'.
        label_mixer [7, 8::nat] [[1, 2, 3], [1, 4, 5]] [3, 3] [[1, 9, 9], [1, 9, 9]] [3, 3]
          [3, 2, 1, 0]
        = Inr (imgs', inputs', input_lens', [0, 0, 1, 1]))"
proof -
  have p: "mset [3, 2, 1, 0::nat] = mset [0..<2 * length [[1, 2, 3], [1, 4, 5::int]]]"
    by code_simp
  have w: "\<forall>r \<in> set [[1, 9, 9], [1, 9, 9::int]]. length r = col_shape [[1, 2, 3], [1, 4, 5::int]]"
    by simp
  from label_mixer_labels [of "[7, 8::nat]" "[[1, 2, 3], [1, 4, 5]]" "[3, 3]"
      "[[1, 9, 9], [1, 9, 9]]" "[3, 3]" "[3, 2, 1, 0]", OF _ _ _ _ w p]
  obtain imgs' inputs' input_lens' targets' where
    a: "label_mixer [7, 8::nat] [[1, 2, 3], [1, 4, 5]] [3, 3] [[1, 9, 9], [1, 9, 9]] [3, 3]
        [3, 2, 1, 0] = Inr (imgs', inputs', input_lens', targets')"
    and b: "targets' = map (\<lambda>i. (replicate (length [[1, 2, 3], [1, 4, 5::int]]) 1
            @ replicate (length [[1, 2, 3], [1, 4, 5::int]]) 0) ! i) [3, 2, 1, 0]"
    by auto
  from b have "targets' = [0, 0, 1, 1]" by (simp add: nth_append)
  with a p show ?thesis by blast
qed

text \<open>
  C5. On the same batches and for every permutation, the one permutation is applied to all
  four tensors: at every output position \<open>i\<close> the image, the caption, the length and the
  label are those of one example of the concatenated batch, the one at position
  \<open>indices ! i\<close>.
\<close>

theorem label_mixer_association:
  assumes "length imgs = length caps" "length cap_lens = length caps"
    and "length fake_caps = length caps" "length fake_cap_lens = length caps"
    and "\<forall>r \<in> set fake_caps. length r = col_shape caps"
    and "mset indices = mset [0..<2 * length caps]"
  shows "\<exists>imgs' inputs' input_lens' targets'.
      label_mixer imgs caps cap_lens fake_caps fake_cap_lens indices
        = Inr (imgs', inputs', input_lens', targets')
      \<and> (\<forall>i < 2 * length caps.
            indices ! i < 2 * length caps
            \<and> (imgs' ! i, inputs' ! i, input_lens' ! i, targets' ! i)
              = mixed_example imgs caps cap_lens fake_caps fake_cap_lens (indices ! i))"
proof -
  have len: "length indices = 2 * length caps"
    using assms(6) by (rule perm_indices_length)
  have bound: "\<And>i. i < 2 * length caps \<Longrightarrow> indices ! i < 2 * length caps"
    using perm_indices_bound [OF assms(6)] len by (simp add: list_all_length)
  have ex: "(imgs @ imgs) ! k = fst (mixed_example imgs caps cap_lens fake_caps fake_cap_lens k)
      \<and> (caps @ fake_caps) ! k
          = fst (snd (mixed_example imgs caps cap_lens fake_caps fake_cap_lens k))
      \<and> (cap_lens @ fake_cap_lens) ! k
          = fst (snd (snd (mixed_example imgs caps cap_lens fake_caps fake_cap_lens k)))
      \<and> (replicate (length caps) 1 @ replicate (length caps) 0) ! k
          = snd (snd (snd (mixed_example imgs caps cap_lens fake_caps fake_cap_lens k)))"
    if "k < 2 * length caps" for k
    using that assms(1-4) by (simp add: mixed_example_def nth_append)
  show ?thesis
    using label_mixer_result [OF assms] len bound ex
    by (simp add: prod_eq_iff)
qed

theorem label_mixer_association_witness:
  "mset [3, 2, 1, 0::nat] = mset [0..<2 * length [[1, 2, 3], [1, 4, 5::int]]]
   \<and> (\<exists>imgs' inputs' input_lens' targets'.
        label_mixer [7, 8::nat] [[1, 2, 3], [1, 4, 5]] [3, 3] [[1, 9, 9], [1, 9, 9]] [3, 3]
          [3, 2, 1, 0]
        = Inr (imgs', inputs', input_lens', targets')
        \<and> (imgs' ! 0, inputs' ! 0, input_lens' ! 0, targets' ! 0) = (8, [1, 9, 9], 3, 0)
        \<and> (imgs' ! 3, inputs' ! 3, input_lens' ! 3, targets' ! 3) = (7, [1, 2, 3], 3, 1))"
proof -
  have p: "mset [3, 2, 1, 0::nat] = mset [0..<2 * length [[1, 2, 3], [1, 4, 5::int]]]"
    by code_simp
  have w: "\<forall>r \<in> set [[1, 9, 9], [1, 9, 9::int]]. length r = col_shape [[1, 2, 3], [1, 4, 5::int]]"
    by simp
  from label_mixer_association [of "[7, 8::nat]" "[[1, 2, 3], [1, 4, 5]]" "[3, 3]"
      "[[1, 9, 9], [1, 9, 9]]" "[3, 3]" "[3, 2, 1, 0]", OF _ _ _ _ w p]
  obtain imgs' inputs' input_lens' targets' where
    a: "label_mixer [7, 8::nat] [[1, 2, 3], [1, 4, 5]] [3, 3] [[1, 9, 9], [1, 9, 9]] [3, 3]
        [3, 2, 1, 0] = Inr (imgs', inputs', input_lens', targets')"
    and b: "\<forall>i < 2 * length [[1, 2, 3], [1, 4, 5::int]].
        (imgs' ! i, inputs' ! i, input_lens' ! i, targets' ! i)
          = mixed_example [7, 8::nat] [[1, 2, 3], [1, 4, 5]] [3, 3] [[1, 9, 9], [1, 9, 9]]
              [3, 3] ([3, 2, 1, 0] ! i)"
    by auto
  from b [rule_format, of 0] have b0:
    "(imgs' ! 0, inputs' ! 0, input_lens' ! 0, targets' ! 0) = (8, [1, 9, 9], 3, 0)"
    by (simp add: mixed_example_def)
  from b [rule_format, of 3] have b3:
    "(imgs' ! 3, inputs' ! 3, input_lens' ! 3, targets' ! 3) = (7, [1, 2, 3], 3, 1)"
    by (simp add: mixed_example_def)
  from a b0 b3 p show ?thesis by blast
qed

subsection \<open>The call of the generator\<close>

text \<open>
  C6. For every batch with at least one caption, whose captions have at least one column,
  \<^verbatim>\<open>sample_from_start\<close> calls \<^verbatim>\<open>generator.sample\<close> once, with the target length
  \<open>max (the largest real caption length) max_len - 1\<close> and with the first token of every
  real caption as the input word; it returns what \<^verbatim>\<open>pad_generated_captions\<close> makes of the
  sample.
\<close>

theorem sample_from_start_call:
  assumes "cap_lens \<noteq> []" and "\<forall>r \<in> set caps. r \<noteq> []"
  shows "sample_from_start env imgs caps cap_lens generator word_index a =
     Inr (pad_generated_captions env
           (sample env generator (max (Max (set cap_lens)) (max_len a) - 1) (col_shape caps)
              imgs (map (\<lambda>r. r ! 0) caps) (sampling_method a))
           word_index)"
proof -
  from assms(1) obtain x xs where c: "cap_lens = x # xs" by (cases cap_lens) auto
  have "fold max xs x = Max (set (x # xs))" by (rule Max.set_eq_fold [symmetric])
  then have m: "tensor_max cap_lens = Inr (Max (set cap_lens))" by (simp add: c)
  have h: "map hd caps = map (\<lambda>r. r ! 0) caps"
    using assms(2) by (simp add: hd_conv_nth)
  have f: "first_column caps = Inr (map (\<lambda>r. r ! 0) caps)"
    using assms(2) h by (simp add: first_column_def list_all_iff)
  show ?thesis by (simp add: sample_from_start_def m f)
qed

theorem sample_from_start_call_witness:
  "sample_from_start
       (demo_env\<lparr>sample := (\<lambda>g cap_len col imgs input_word method.
                    map (\<lambda>w. w # replicate (nat cap_len) 9) input_word)\<rparr>)
       [7, 8] [[1, 2, 3], [1, 4, 5]] [3, 5] 0 Map.empty (demo_args\<lparr>max_len := 4\<rparr>)
     = Inr ([[1, 9, 9, 9, 9], [1, 9, 9, 9, 9]], [5, 5])"
  using sample_from_start_call [of "[3, 5]" "[[1, 2, 3], [1, 4, 5]]"
      "demo_env\<lparr>sample := (\<lambda>g cap_len col imgs input_word method.
                    map (\<lambda>w. w # replicate (nat cap_len) 9) input_word)\<rparr>"
      "[7, 8]" 0 Map.empty "demo_args\<lparr>max_len := 4\<rparr>"]
  by (simp add: demo_env_def demo_args_def eval_nat_numeral)

subsection \<open>The actions of one call of \<^verbatim>\<open>train\<close>\<close>

text \<open>
  The batch loop, started at batch \<open>k\<close> with any two meters, performs for every optimizer
  step it makes the actions of \<open>report\<close> on the meters updated with the losses and
  accuracies of the steps so far.
\<close>

lemma report_result:
  "snd (report env a epoch b t l c) =
     (if print_freq a = 0 then Inl ZeroDivisionError
      else if report_raises env a b then Inl FileNotFoundError else Inr ())"
  by (simp add: report_def report_raises_def)

lemma report_split:
  "report env a epoch b t l c =
     (report_events env a epoch b t l c, snd (report env a epoch b t l c))"
  by (simp add: report_events_def)

lemma report_raises_iff:
  "report_raises env a b \<longleftrightarrow> (\<exists>err. snd (report env a epoch b t l c) = Inl err)"
  by (auto simp: report_result report_raises_def)

lemma concat_map_upt_Suc:
  "concat (map f [0..<Suc n]) = f 0 @ concat (map (\<lambda>j. f (Suc j)) [0..<n])"
proof -
  have "[0..<Suc n] = 0 # map Suc [0..<n]" by (simp add: upt_conv_Cons map_Suc_upt del: upt_Suc)
  then show ?thesis by (simp add: comp_def del: upt_Suc)
qed

lemma train_loop_events:
  "fst (train_loop env a epoch encoder generator word_index k lm am st bs) =
     concat (map (\<lambda>j. report_events env a epoch (k + j) (elapsed env epoch (k + j))
                   (foldl AverageMeter_update lm
                      (map fst (take (Suc j)
                         (epoch_metrics env a encoder generator word_index epoch k st bs))))
                   (foldl AverageMeter_update am
                      (map snd (take (Suc j)
                         (epoch_metrics env a encoder generator word_index epoch k st bs)))))
               [0..<length (epoch_metrics env a encoder generator word_index epoch k st bs)])"
proof (induction bs arbitrary: k lm am st)
  case Nil
  show ?case by simp
next
  case (Cons b bs)
  show ?case
  proof (cases "train_batch env a encoder generator word_index epoch k st b")
    case (Inl err)
    then show ?thesis by simp
  next
    case (Inr res)
    obtain st' loss accuracy where res: "res = (st', loss, accuracy)" by (cases res) auto
    let ?lm = "AverageMeter_update lm loss" and ?am = "AverageMeter_update am accuracy"
    let ?ms = "epoch_metrics env a encoder generator word_index epoch (Suc k) st' bs"
    let ?evs = "report_events env a epoch k (elapsed env epoch k) ?lm ?am"
    note rs = report_split [of env a epoch k "elapsed env epoch k" ?lm ?am]
    note IH = Cons.IH [of "Suc k" ?lm ?am st']
    show ?thesis
    proof (cases "report_raises env a k")
      case True
      then obtain err where
        e: "snd (report env a epoch k (elapsed env epoch k) ?lm ?am) = Inl err"
        using report_raises_iff [of env a k epoch "elapsed env epoch k" ?lm ?am] by blast
      have ms: "epoch_metrics env a encoder generator word_index epoch k st (b # bs)
          = [(loss, accuracy)]"
        using Inr res True by simp
      have tl: "train_loop env a epoch encoder generator word_index k lm am st (b # bs)
          = (?evs, Inl err)"
        using Inr res rs e by (simp add: Let_def)
      show ?thesis unfolding tl ms by simp
    next
      case False
      then have e: "snd (report env a epoch k (elapsed env epoch k) ?lm ?am) = Inr ()"
        by (simp add: report_result report_raises_def)
      have ms: "epoch_metrics env a encoder generator word_index epoch k st (b # bs)
          = (loss, accuracy) # ?ms"
        using Inr res False by simp
      have l: "fst (train_loop env a epoch encoder generator word_index k lm am st (b # bs))
          = ?evs @ fst (train_loop env a epoch encoder generator word_index (Suc k) ?lm ?am
                          st' bs)"
        using Inr res rs e by (simp add: split_beta Let_def)
      show ?thesis
        unfolding l IH ms
        by (simp add: concat_map_upt_Suc del: upt_Suc)
    qed
  qed
qed

lemma meter_foldl:
  "msum (foldl AverageMeter_update m xs) = msum m + sum_list xs
   \<and> mcount (foldl AverageMeter_update m xs) = mcount m + length xs"
  by (induction xs arbitrary: m) (simp_all add: AverageMeter_update_def)

lemma meter_after_snoc:
  "meter_after (xs @ [x]) = AverageMeter_update (meter_after xs) x"
  by (simp add: meter_after_def)

lemma meter_after_avg_val:
  assumes "xs \<noteq> []"
  shows "avg (meter_after xs) = mean xs" and "val (meter_after xs) = last xs"
proof -
  from assms obtain ys y where xs: "xs = ys @ [y]" by (cases xs rule: rev_cases) auto
  have s: "msum (meter_after ys) = sum_list ys" and c: "mcount (meter_after ys) = length ys"
    using meter_foldl [of AverageMeter_init ys]
    by (simp_all add: meter_after_def AverageMeter_init_def)
  show "avg (meter_after xs) = mean xs"
    by (simp add: xs meter_after_snoc AverageMeter_update_def s c mean_def)
  show "val (meter_after xs) = last xs"
    by (simp add: xs meter_after_snoc AverageMeter_update_def)
qed

lemma train_events:
  "fst (train env a epoch encoder generator st word_index) =
     concat (map (\<lambda>j. report_events env a epoch j (elapsed env epoch j)
                   (meter_after (map fst (take (Suc j)
                      (epoch_metrics env a encoder generator word_index epoch 0 st
                         (train_loader env epoch)))))
                   (meter_after (map snd (take (Suc j)
                      (epoch_metrics env a encoder generator word_index epoch 0 st
                         (train_loader env epoch))))))
               [0..<length (epoch_metrics env a encoder generator word_index epoch 0 st
                              (train_loader env epoch))])"
proof (cases "\<not> use_image_features a \<and> encoder = None")
  case True
  have "epoch_metrics env a encoder generator word_index epoch 0 st (train_loader env epoch) = []"
    using True by (cases "train_loader env epoch") (simp_all add: train_batch_def split: prod.splits)
  then show ?thesis using True by (simp add: train_def)
next
  case False
  then have t: "train env a epoch encoder generator st word_index =
      train_loop env a epoch encoder generator word_index 0 AverageMeter_init AverageMeter_init
        st (train_loader env epoch)"
    by (auto simp: train_def)
  show ?thesis
    unfolding t meter_after_def
    using train_loop_events [of env a epoch encoder generator word_index 0
        AverageMeter_init AverageMeter_init st "train_loader env epoch"]
    by (simp del: upt_Suc)
qed

subsection \<open>The lines and rows of one call of \<^verbatim>\<open>train\<close>\<close>

lemma train_events_metrics:
  "fst (train env a epoch encoder generator st word_index) =
     concat (map (\<lambda>b. report_events env a epoch b (elapsed env epoch b)
                   (meter_after (take (Suc b)
                      (map fst (train_metrics env a epoch encoder generator st word_index))))
                   (meter_after (take (Suc b)
                      (map snd (train_metrics env a epoch encoder generator st word_index)))))
               [0..<length (train_metrics env a epoch encoder generator st word_index)])"
  unfolding train_metrics_def take_map by (rule train_events)

lemma report_events_eq:
  "print_freq a \<noteq> 0 \<Longrightarrow>
   report_events env a epoch b t l c =
     (if int b mod print_freq a = 0
      then LogInfo (TrainLine (log_fields epoch b t l c))
           # (if save_stats a \<and> parent_dir (stats_path a) \<in> directories env
              then [CsvAppend (stats_path a) (csv_fields epoch b l c)] else [])
      else [])"
  by (simp add: report_events_def report_def)

lemma train_lines_concat: "train_lines (concat xss) = concat (map train_lines xss)"
  by (induction xss) (simp_all add: train_lines_def)

lemma train_lines_report:
  "print_freq a \<noteq> 0 \<Longrightarrow>
   train_lines (report_events env a epoch b t l c) =
     (if int b mod print_freq a = 0 then [log_fields epoch b t l c] else [])"
  by (simp add: report_events_eq train_lines_def)

lemma concat_map_if: "concat (map (\<lambda>x. if P x then [f x] else []) xs) = map f (filter P xs)"
  by (induction xs) simp_all

lemma meter_after_take:
  assumes "b < length xs"
  shows "avg (meter_after (take (Suc b) xs)) = mean (take (Suc b) xs)"
    and "val (meter_after (take (Suc b) xs)) = xs ! b"
proof -
  from assms have ne: "take (Suc b) xs \<noteq> []" by (cases xs) auto
  show "avg (meter_after (take (Suc b) xs)) = mean (take (Suc b) xs)"
    using ne by (rule meter_after_avg_val)
  have "val (meter_after (take (Suc b) xs)) = last (take (Suc b) xs)"
    using ne by (rule meter_after_avg_val)
  also have "\<dots> = xs ! b" using assms by (simp add: take_Suc_conv_app_nth)
  finally show "val (meter_after (take (Suc b) xs)) = xs ! b" .
qed

subsection \<open>The running averages\<close>

text \<open>
  The claim C2 reads the running averages as means over all optimizer steps since the
  process started. In the run of \<open>demo_env\<close> over two epochs of one batch each, the losses
  of the two steps are 1 and 3 and the accuracies 1 and 1/3; the line logged in epoch 1
  shows the running loss 3 and the running accuracy 1/3, the values of that step alone,
  where the means over both steps are 2 and 2/3.
\<close>

theorem running_average_counterexample:
  "train_lines (snd (fst (main demo_env demo_args Map.empty))) =
     [[IntCell 0, IntCell 0, FloatCell (1 / 8), FloatCell 1, FloatCell 1, FloatCell 1, FloatCell 1],
      [IntCell 1, IntCell 0, FloatCell (1 / 8), FloatCell 3, FloatCell 3, FloatCell (1 / 3),
       FloatCell (1 / 3)]]
   \<and> mean [1, 3] = 2 \<and> mean [1, 3] \<noteq> 3 \<and> mean [1, 1 / 3] = 2 / 3 \<and> mean [1, 1 / 3] \<noteq> 1 / 3"
  by (simp add: run_defs train_lines_def mean_def upt_rec)



text \<open>
  C2, amended. In every call of \<^verbatim>\<open>train\<close>, that is in every epoch, the meters start new:
  with a print frequency other than 0, the lines logged by the call are those of the batch
  indices \<open>b\<close> divisible by the print frequency among the steps that succeeded, and the
  running loss and accuracy in the line of batch \<open>b\<close> are the means of the losses and
  accuracies of the steps 0 to \<open>b\<close> of this call, the current ones those of step \<open>b\<close>.
  Nothing of an earlier epoch enters them.
\<close>

theorem train_running_averages:
  assumes "print_freq a \<noteq> 0"
  shows "train_lines (fst (train env a epoch encoder generator st word_index)) =
     map (\<lambda>b. [IntCell (int epoch), IntCell (int b), FloatCell (elapsed env epoch b),
               FloatCell (mean (take (Suc b)
                 (map fst (train_metrics env a epoch encoder generator st word_index)))),
               FloatCell (map fst (train_metrics env a epoch encoder generator st word_index) ! b),
               FloatCell (mean (take (Suc b)
                 (map snd (train_metrics env a epoch encoder generator st word_index)))),
               FloatCell (map snd (train_metrics env a epoch encoder generator st word_index) ! b)])
         (filter (\<lambda>b. int b mod print_freq a = 0)
            [0..<length (train_metrics env a epoch encoder generator st word_index)])"
proof -
  let ?ms = "train_metrics env a epoch encoder generator st word_index"
  let ?line = "\<lambda>b. log_fields epoch b (elapsed env epoch b)
      (meter_after (take (Suc b) (map fst ?ms))) (meter_after (take (Suc b) (map snd ?ms)))"
  have "train_lines (fst (train env a epoch encoder generator st word_index)) =
      concat (map (\<lambda>b. if int b mod print_freq a = 0 then [?line b] else []) [0..<length ?ms])"
    by (simp add: train_events_metrics train_lines_concat comp_def train_lines_report [OF assms])
  also have "\<dots> = map ?line (filter (\<lambda>b. int b mod print_freq a = 0) [0..<length ?ms])"
    by (rule concat_map_if)
  also have "\<dots> = map (\<lambda>b. [IntCell (int epoch), IntCell (int b), FloatCell (elapsed env epoch b),
               FloatCell (mean (take (Suc b) (map fst ?ms))), FloatCell (map fst ?ms ! b),
               FloatCell (mean (take (Suc b) (map snd ?ms))), FloatCell (map snd ?ms ! b)])
         (filter (\<lambda>b. int b mod print_freq a = 0) [0..<length ?ms])"
  proof (rule map_cong [OF refl])
    fix b assume "b \<in> set (filter (\<lambda>b. int b mod print_freq a = 0) [0..<length ?ms])"
    then have b: "b < length (map fst ?ms)" "b < length (map snd ?ms)" by simp_all
    show "?line b = [IntCell (int epoch), IntCell (int b), FloatCell (elapsed env epoch b),
               FloatCell (mean (take (Suc b) (map fst ?ms))), FloatCell (map fst ?ms ! b),
               FloatCell (mean (take (Suc b) (map snd ?ms))), FloatCell (map snd ?ms ! b)]"
      unfolding log_fields_def
      by (simp only: meter_after_take [OF b(1)] meter_after_take [OF b(2)])
  qed
  finally show ?thesis .
qed

theorem train_running_averages_witness:
  "print_freq demo_args \<noteq> 0
   \<and> train_lines (fst (train demo_env2 demo_args 1 None 0 (1, 1) Map.empty)) =
       [[IntCell 1, IntCell 0, FloatCell (1 / 8), FloatCell 3, FloatCell 3,
         FloatCell (1 / 3), FloatCell (1 / 3)],
        [IntCell 1, IntCell 1, FloatCell (1 / 8), FloatCell 4, FloatCell 5,
         FloatCell (4 / 15), FloatCell (1 / 5)]]"
proof -
  have p: "print_freq demo_args \<noteq> 0" by (simp add: demo_args_def)
  have m: "train_metrics demo_env2 demo_args 1 None 0 (1, 1) Map.empty = [(3, 1 / 3), (5, 1 / 5)]"
    by (simp add: train_metrics_def run_defs)
  have u: "[0..<2] = [0, 1]" by code_simp
  have e: "elapsed demo_env2 = (\<lambda>_ _. 1 / 8)" by (simp add: demo_env2_def demo_env_def)
  note A = train_running_averages [OF p, of demo_env2 1 None 0 "(1, 1)" Map.empty, unfolded m]
  show ?thesis
    unfolding A
    using p by (simp add: u e mean_def demo_args_def)
qed

subsection \<open>The log line and the CSV row\<close>

text \<open>
  The claim C3 has the log line give the current value before the running one, and the
  CSV row hold exactly the fields of the line. In one epoch of \<open>demo_env2\<close>, at batch 1
  the line gives the running loss 2 before the current loss 3 and the running accuracy 2/3
  before the current 1/3; the row has six cells, without the time of the batch.
\<close>

theorem log_and_csv_fields_counterexample:
  "fst (train demo_env2 demo_args 0 None 0 (0, 0) Map.empty) =
      [LogInfo (TrainLine [IntCell 0, IntCell 0, FloatCell (1 / 8), FloatCell 1, FloatCell 1,
         FloatCell 1, FloatCell 1]),
       CsvAppend ''./stats/flickr8k/dis/pretrain_dis_multinomial_resnet152.csv''
         [IntCell 0, IntCell 0, FloatCell 1, FloatCell 1, FloatCell 1, FloatCell 1],
       LogInfo (TrainLine [IntCell 0, IntCell 1, FloatCell (1 / 8), FloatCell 2, FloatCell 3,
         FloatCell (2 / 3), FloatCell (1 / 3)]),
       CsvAppend ''./stats/flickr8k/dis/pretrain_dis_multinomial_resnet152.csv''
         [IntCell 0, IntCell 1, FloatCell 2, FloatCell 3, FloatCell (1 / 3), FloatCell (2 / 3)]]
   \<and> log_fields 0 1 (1 / 8) (meter_after [1, 3]) (meter_after [1, 1 / 3])
       \<noteq> spec_log_fields 0 1 (1 / 8) (meter_after [1, 3]) (meter_after [1, 1 / 3])
   \<and> csv_fields 0 1 (meter_after [1, 3]) (meter_after [1, 1 / 3])
       \<noteq> log_fields 0 1 (1 / 8) (meter_after [1, 3]) (meter_after [1, 1 / 3])
   \<and> mset (csv_fields 0 1 (meter_after [1, 3]) (meter_after [1, 1 / 3]))
       \<noteq> mset (log_fields 0 1 (1 / 8) (meter_after [1, 3]) (meter_after [1, 1 / 3]))"
  by (simp add: run_defs spec_log_fields_def meter_after_def)

text \<open>
  C3, amended. With a print frequency other than 0, a call of \<^verbatim>\<open>train\<close> performs, for
  every batch index divisible by the print frequency among the steps that succeeded and in
  their order, one log line and, when stats saving is enabled and the directory of the CSV
  record exists, one CSV row after it, and nothing else. The line holds the epoch, the batch index, the time of the batch, the
  running then the current loss and the running then the current accuracy. The row holds
  the cells of the line except the time of the batch.
\<close>

theorem train_log_and_csv_fields:
  assumes "print_freq a \<noteq> 0"
  shows "fst (train env a epoch encoder generator st word_index) =
     concat (map (\<lambda>b. if int b mod print_freq a = 0
                  then LogInfo (TrainLine (log_fields epoch b (elapsed env epoch b)
                         (meter_after (take (Suc b)
                            (map fst (train_metrics env a epoch encoder generator st word_index))))
                         (meter_after (take (Suc b)
                            (map snd (train_metrics env a epoch encoder generator st word_index))))))
                       # (if save_stats a \<and> parent_dir (stats_path a) \<in> directories env
                          then [CsvAppend (stats_path a) (csv_fields epoch b
                             (meter_after (take (Suc b)
                                (map fst (train_metrics env a epoch encoder generator st word_index))))
                             (meter_after (take (Suc b)
                                (map snd (train_metrics env a epoch encoder generator st word_index)))))]
                          else [])
                  else [])
               [0..<length (train_metrics env a epoch encoder generator st word_index)])
   \<and> log_fields epoch b t l c =
       [IntCell (int epoch), IntCell (int b), FloatCell t,
        FloatCell (avg l), FloatCell (val l), FloatCell (avg c), FloatCell (val c)]
   \<and> mset (csv_fields epoch b l c) + {#FloatCell t#} = mset (log_fields epoch b t l c)"
proof -
  have 1: "fst (train env a epoch encoder generator st word_index) =
     concat (map (\<lambda>b. if int b mod print_freq a = 0
                  then LogInfo (TrainLine (log_fields epoch b (elapsed env epoch b)
                         (meter_after (take (Suc b)
                            (map fst (train_metrics env a epoch encoder generator st word_index))))
                         (meter_after (take (Suc b)
                            (map snd (train_metrics env a epoch encoder generator st word_index))))))
                       # (if save_stats a \<and> parent_dir (stats_path a) \<in> directories env
                          then [CsvAppend (stats_path a) (csv_fields epoch b
                             (meter_after (take (Suc b)
                                (map fst (train_metrics env a epoch encoder generator st word_index))))
                             (meter_after (take (Suc b)
                                (map snd (train_metrics env a epoch encoder generator st word_index)))))]
                          else [])
                  else [])
               [0..<length (train_metrics env a epoch encoder generator st word_index)])"
    by (simp only: train_events_metrics report_events_eq [OF assms])
  have 2: "log_fields epoch b t l c =
       [IntCell (int epoch), IntCell (int b), FloatCell t,
        FloatCell (avg l), FloatCell (val l), FloatCell (avg c), FloatCell (val c)]"
    by (simp add: log_fields_def)
  have 3: "mset (csv_fields epoch b l c) + {#FloatCell t#} = mset (log_fields epoch b t l c)"
    by (simp add: log_fields_def csv_fields_def)
  from 1 2 3 show ?thesis by blast
qed

theorem train_log_and_csv_fields_witness:
  "print_freq demo_args \<noteq> 0
   \<and> fst (train demo_env2 demo_args 0 None 0 (0, 0) Map.empty) =
      [LogInfo (TrainLine [IntCell 0, IntCell 0, FloatCell (1 / 8), FloatCell 1, FloatCell 1,
         FloatCell 1, FloatCell 1]),
       CsvAppend ''./stats/flickr8k/dis/pretrain_dis_multinomial_resnet152.csv''
         [IntCell 0, IntCell 0, FloatCell 1, FloatCell 1, FloatCell 1, FloatCell 1],
       LogInfo (TrainLine [IntCell 0, IntCell 1, FloatCell (1 / 8), FloatCell 2, FloatCell 3,
         FloatCell (2 / 3), FloatCell (1 / 3)]),
       CsvAppend ''./stats/flickr8k/dis/pretrain_dis_multinomial_resnet152.csv''
         [IntCell 0, IntCell 1, FloatCell 2, FloatCell 3, FloatCell (1 / 3), FloatCell (2 / 3)]]"
proof -
  have p: "print_freq demo_args \<noteq> 0" by (simp add: demo_args_def)
  have m: "train_metrics demo_env2 demo_args 0 None 0 (0, 0) Map.empty = [(1, 1), (3, 1 / 3)]"
    by (simp add: train_metrics_def run_defs)
  have u: "[0..<2] = [0, 1]" by code_simp
  have e: "elapsed demo_env2 = (\<lambda>_ _. 1 / 8)" by (simp add: demo_env2_def demo_env_def)
  have d: "directories demo_env2 = {''./ckpts/flickr8k/dis'', ''./stats/flickr8k/dis''}"
    by (simp add: demo_env2_def demo_env_def)
  note A = train_log_and_csv_fields [OF p, of demo_env2 0 None 0 "(0, 0)" Map.empty, THEN conjunct1, unfolded m]
  show ?thesis
    unfolding A
    using p
    by (simp add: u e d demo_dirs meter_after_def log_fields_def csv_fields_def stats_path_def
        AverageMeter_init_def AverageMeter_update_def demo_args_def)
qed

subsection \<open>The paths of the checkpoints\<close>








subsection \<open>The actions of the epoch loop\<close>

lemma proj_append:
  "loaded_paths (xs @ ys) = loaded_paths xs @ loaded_paths ys"
  "saved_paths (xs @ ys) = saved_paths xs @ saved_paths ys"
  "csv_rows (xs @ ys) = csv_rows xs @ csv_rows ys"
  "completed_epochs (xs @ ys) = completed_epochs xs @ completed_epochs ys"
  by (simp_all add: loaded_paths_def saved_paths_def csv_rows_def completed_epochs_def)

lemma proj_Nil:
  "loaded_paths [] = []" "saved_paths [] = []" "csv_rows [] = []" "completed_epochs [] = []"
  by (simp_all add: loaded_paths_def saved_paths_def csv_rows_def completed_epochs_def)

lemma proj_report_events:
  "loaded_paths (report_events env a epoch b t l c) = []"
  "saved_paths (report_events env a epoch b t l c) = []"
  "completed_epochs (report_events env a epoch b t l c) = []"
  by (simp_all add: report_events_def report_def loaded_paths_def saved_paths_def
      completed_epochs_def)

lemma proj_concat_Nil:
  assumes "\<And>x. loaded_paths (f x) = []" "\<And>x. saved_paths (f x) = []"
    "\<And>x. completed_epochs (f x) = []"
  shows "loaded_paths (concat (map f xs)) = []" "saved_paths (concat (map f xs)) = []"
    "completed_epochs (concat (map f xs)) = []"
  by (induction xs) (simp_all add: proj_append proj_Nil assms)

lemma proj_train:
  "loaded_paths (fst (train env a epoch encoder generator st word_index)) = []"
  "saved_paths (fst (train env a epoch encoder generator st word_index)) = []"
  "completed_epochs (fst (train env a epoch encoder generator st word_index)) = []"
  unfolding train_events
  by (rule proj_concat_Nil; rule proj_report_events)+

text \<open>What the epoch loop does to the file system and which actions it performs.\<close>

lemma proj_epoch_step:
  "loaded_paths ((if c then [TorchSave q] else []) @ [LogInfo (EpochDone e)]) = []"
  "saved_paths ((if c then [TorchSave q] else []) @ [LogInfo (EpochDone e)])
     = (if c then [q] else [])"
  "completed_epochs ((if c then [TorchSave q] else []) @ [LogInfo (EpochDone e)]) = [e]"
  by (simp_all add: loaded_paths_def saved_paths_def completed_epochs_def)

lemma epoch_loop_step:
  assumes "epoch_loop env a encoder generator word_index fs st (e # es) = ((fs', tr), r)"
  obtains (train_fails) err where
      "train env a e encoder generator st word_index = (tr, Inl err)" "fs' = fs" "r = Inl err"
    | (save_fails) st' err where
      "train env a e encoder generator st word_index = (tr, Inr st')" "save_model a"
      "torch_save env fs a e st' = Inl err" "fs' = fs" "r = Inl err"
    | (continues) evs st' fs1 tr2 where
      "train env a e encoder generator st word_index = (evs, Inr st')"
      "fs1 = (if save_model a then fs(save_path a e \<mapsto> saved_checkpoint st') else fs)"
      "save_model a \<Longrightarrow> torch_save env fs a e st' = Inr fs1"
      "epoch_loop env a encoder generator word_index fs1 st' es = ((fs', tr2), r)"
      "tr = evs @ ((if save_model a then [TorchSave (save_path a e)] else [])
                   @ [LogInfo (EpochDone e)]) @ tr2"
proof -
  obtain evs res where t: "train env a e encoder generator st word_index = (evs, res)"
    by (cases "train env a e encoder generator st word_index")
  show thesis
  proof (cases res)
    case (Inl err)
    have "epoch_loop env a encoder generator word_index fs st (e # es) = ((fs, evs), Inl err)"
      by (simp add: t Inl)
    with assms have "fs' = fs" "tr = evs" "r = Inl err" by simp_all
    with t Inl train_fails show thesis by simp
  next
    case (Inr st')
    show thesis
    proof (cases "save_model a \<and> parent_dir (save_path a e) \<notin> directories env")
      case True
      then have ts: "torch_save env fs a e st' = Inl FileNotFoundError"
        by (simp add: torch_save_def)
      have "epoch_loop env a encoder generator word_index fs st (e # es)
          = ((fs, evs), Inl FileNotFoundError)"
        using True by (simp add: t Inr ts)
      with assms have "fs' = fs" "tr = evs" "r = Inl FileNotFoundError" by simp_all
      with t Inr True ts save_fails show thesis by simp
    next
      case False
      let ?fs1 = "if save_model a then fs(save_path a e \<mapsto> saved_checkpoint st') else fs"
      let ?mid = "(if save_model a then [TorchSave (save_path a e)] else [])
          @ [LogInfo (EpochDone e)]"
      have ts: "torch_save env fs a e st' = Inr ?fs1" if "save_model a"
        using that False by (simp add: torch_save_def)
      obtain fs2 tr2 r2 where
        rec: "epoch_loop env a encoder generator word_index ?fs1 st' es = ((fs2, tr2), r2)"
        by (metis prod.exhaust)
      have "epoch_loop env a encoder generator word_index fs st (e # es)
          = ((fs2, evs @ ?mid @ tr2), r2)"
        using ts rec by (cases "save_model a") (simp_all add: t Inr)
      with assms have eq: "fs' = fs2" "tr = evs @ ?mid @ tr2" "r = r2" by simp_all
      show thesis
        by (rule continues [of evs st' ?fs1 tr2])
          (use t Inr ts rec eq in simp_all)
    qed
  qed
qed

lemma epoch_loop_run:
  assumes "epoch_loop env a encoder generator word_index fs st es = ((fs', tr), r)"
  shows "loaded_paths tr = []
    \<and> prefix (completed_epochs tr) es
    \<and> (r = Inr () \<longrightarrow> completed_epochs tr = es)
    \<and> saved_paths tr = (if save_model a then map (save_path a) (completed_epochs tr) else [])
    \<and> (\<forall>p. p \<notin> set (saved_paths tr) \<longrightarrow> fs' p = fs p)"
  using assms
proof (induction es arbitrary: fs st fs' tr r)
  case Nil
  then show ?case by (simp add: proj_Nil)
next
  case (Cons e es)
  from Cons.prems show ?case
  proof (cases rule: epoch_loop_step)
    case (train_fails err)
    from proj_train [of env a e encoder generator st word_index] train_fails
    show ?thesis by simp
  next
    case (save_fails st' err)
    from proj_train [of env a e encoder generator st word_index] save_fails
    show ?thesis by simp
  next
    case (continues evs st' fs1 tr2)
    let ?mid = "(if save_model a then [TorchSave (save_path a e)] else [])
        @ [LogInfo (EpochDone e)]"
    have pe: "loaded_paths evs = []" "saved_paths evs = []" "completed_epochs evs = []"
      using proj_train [of env a e encoder generator st word_index] continues(1)
      by simp_all
    have m: "loaded_paths ?mid = []"
      "saved_paths ?mid = (if save_model a then [save_path a e] else [])"
      "completed_epochs ?mid = [e]"
      by (rule proj_epoch_step)+
    note tr = continues(5)
    note IH = Cons.IH [OF continues(4)]
    have l: "loaded_paths tr = []"
      using IH unfolding tr proj_append [of evs] proj_append [of ?mid] pe m by simp
    have c: "completed_epochs tr = e # completed_epochs tr2"
      unfolding tr proj_append [of evs] proj_append [of ?mid] pe m by simp
    have s: "saved_paths tr = (if save_model a then [save_path a e] else []) @ saved_paths tr2"
      unfolding tr proj_append [of evs] proj_append [of ?mid] pe m by simp
    have f: "fs' p = fs p" if "p \<notin> set (saved_paths tr)" for p
    proof -
      from that have n2: "p \<notin> set (saved_paths tr2)" by (simp add: s)
      from that have ne: "save_model a \<Longrightarrow> p \<noteq> save_path a e" by (auto simp: s)
      have "fs' p = fs1 p" using IH n2 by simp
      also have "\<dots> = fs p" using ne by (simp add: continues(2))
      finally show ?thesis .
    qed
    show ?thesis
      using IH l f by (simp add: c s)
  qed
qed

text \<open>
  A run of the epoch loop that ends without an error did, for every epoch of the list in
  order, the actions of that epoch from the state \<open>epoch_states\<close> gives it, and every
  call of \<^verbatim>\<open>train\<close> returned.
\<close>

lemma epoch_loop_success:
  assumes "epoch_loop env a encoder generator word_index fs st es = ((fs', tr), Inr ())"
  shows "length (epoch_states env a encoder generator word_index st es) = length es
    \<and> tr = concat (map (epoch_actions env a encoder generator word_index)
               (zip es (epoch_states env a encoder generator word_index st es)))
    \<and> list_all (\<lambda>es. \<exists>s. snd (train env a (fst es) encoder generator (snd es) word_index)
                            = Inr s)
         (zip es (epoch_states env a encoder generator word_index st es))"
  using assms
proof (induction es arbitrary: fs st tr)
  case Nil
  then show ?case by simp
next
  case (Cons e es)
  from Cons.prems show ?case
  proof (cases rule: epoch_loop_step)
    case (train_fails err)
    then show ?thesis by simp
  next
    case (save_fails st' err)
    then show ?thesis by simp
  next
    case (continues evs st' fs1 tr2)
    note IH = Cons.IH [OF continues(4)]
    have t: "snd (train env a e encoder generator st word_index) = Inr st'"
      "fst (train env a e encoder generator st word_index) = evs"
      by (simp_all add: continues(1))
    have es: "epoch_states env a encoder generator word_index st (e # es)
        = st # epoch_states env a encoder generator word_index st' es"
      by (simp add: t)
    have ea: "epoch_actions env a encoder generator word_index (e, st)
        = evs @ ((if save_model a then [TorchSave (save_path a e)] else [])
                 @ [LogInfo (EpochDone e)])"
      by (simp add: epoch_actions_def t)
    show ?thesis
      unfolding es using IH t by (simp add: ea continues(5))
  qed
qed


subsection \<open>The errors and the actions of \<^verbatim>\<open>main\<close>\<close>

lemma tensor_max_errors: "tensor_max xs = Inl e \<Longrightarrow> e = RuntimeError"
  by (cases xs) simp_all

lemma sample_from_start_errors:
  "sample_from_start env imgs caps cap_lens generator word_index a = Inl e
     \<Longrightarrow> e = RuntimeError \<or> e = IndexError"
  by (auto simp: sample_from_start_def first_column_def
      split: sum.splits if_splits dest: tensor_max_errors)

lemma index_select_errors: "index_select t indices = Inl e \<Longrightarrow> e = IndexError"
  by (simp add: index_select_def split: if_splits)

lemma label_mixer_errors:
  "label_mixer imgs caps cap_lens fake_caps fake_cap_lens indices = Inl e
     \<Longrightarrow> e = RuntimeError \<or> e = IndexError"
  by (auto simp: label_mixer_def cat_rows_def Let_def
      split: sum.splits if_splits dest: index_select_errors)

lemma train_batch_errors:
  assumes "train_batch env a encoder generator word_index epoch batch_id st b = Inl e"
    and "use_image_features a \<or> encoder \<noteq> None"
  shows "e = RuntimeError \<or> e = IndexError"
  using assms
  by (auto simp: train_batch_def Let_def
      split: prod.splits sum.splits if_splits option.splits
      dest: sample_from_start_errors label_mixer_errors)

lemma train_loop_errors:
  assumes "snd (train_loop env a epoch encoder generator word_index k lm am st bs) = Inl e"
    and "use_image_features a \<or> encoder \<noteq> None"
  shows "e = RuntimeError \<or> e = IndexError \<or> e = ZeroDivisionError
    \<or> e = FileNotFoundError"
  using assms(1)
proof (induction bs arbitrary: k lm am st)
  case Nil
  then show ?case by simp
next
  case (Cons b bs)
  show ?case
  proof (cases "train_batch env a encoder generator word_index epoch k st b")
    case (Inl err)
    with Cons.prems have "e = err" by simp
    with train_batch_errors [OF Inl assms(2)] show ?thesis by auto
  next
    case (Inr res)
    obtain st' loss accuracy where res: "res = (st', loss, accuracy)" by (cases res) auto
    let ?lm = "AverageMeter_update lm loss" and ?am = "AverageMeter_update am accuracy"
    note rs = report_split [of env a epoch k "elapsed env epoch k" ?lm ?am]
    show ?thesis
    proof (cases "snd (report env a epoch k (elapsed env epoch k) ?lm ?am)")
      case rl: (Inl err)
      have "err = ZeroDivisionError \<or> err = FileNotFoundError"
        using rl by (simp add: report_result split: if_splits)
      moreover have "e = err" using Cons.prems Inr res rs rl by (simp add: Let_def)
      ultimately show ?thesis by auto
    next
      case rr: (Inr u)
      have "snd (train_loop env a epoch encoder generator word_index k lm am st (b # bs))
          = snd (train_loop env a epoch encoder generator word_index (Suc k) ?lm ?am st' bs)"
        using Inr res rs rr by (simp add: split_beta Let_def)
      with Cons.prems Cons.IH show ?thesis by simp
    qed
  qed
qed

lemma train_errors:
  assumes "snd (train env a epoch (make_encoder env a) generator st word_index) = Inl e"
  shows "e = RuntimeError \<or> e = IndexError \<or> e = ZeroDivisionError
    \<or> e = FileNotFoundError"
proof -
  have g: "use_image_features a \<or> make_encoder env a \<noteq> None"
    by (simp add: make_encoder_def)
  then have "train env a epoch (make_encoder env a) generator st word_index =
      train_loop env a epoch (make_encoder env a) generator word_index 0 AverageMeter_init
        AverageMeter_init st (train_loader env epoch)"
    by (auto simp: train_def)
  with assms train_loop_errors [OF _ g] show ?thesis by simp
qed

lemma epoch_loop_errors:
  assumes "epoch_loop env a (make_encoder env a) generator word_index fs st es
      = ((fs', tr), Inl e)"
  shows "e = RuntimeError \<or> e = IndexError \<or> e = ZeroDivisionError
    \<or> e = FileNotFoundError"
  using assms
proof (induction es arbitrary: fs st tr)
  case Nil
  then show ?case by simp
next
  case (Cons ep es)
  from Cons.prems show ?case
  proof (cases rule: epoch_loop_step)
    case (train_fails err)
    then have "snd (train env a ep (make_encoder env a) generator st word_index) = Inl e"
      by simp
    then show ?thesis by (rule train_errors)
  next
    case (save_fails st' err)
    then show ?thesis by (auto simp: torch_save_def split: if_splits)
  next
    case (continues evs st' fs1 tr2)
    from Cons.IH [OF continues(4)] show ?thesis .
  qed
qed

lemma load_generator_run:
  "fst (load_generator fs a g)
     = (if fs (gen_checkpoint_path a) = None then [] else [TorchLoad (gen_checkpoint_path a)])"
  "snd (load_generator fs a g) = Inl e \<Longrightarrow> e = UnpicklingError \<or> (\<exists>k. e = KeyError k)"
  by (auto simp: load_generator_def split: option.splits ckpt_file.splits)

lemma load_discriminator_run:
  "fst (load_discriminator fs a st)
     = (if fs (dis_checkpoint_path a) = None then [] else [TorchLoad (dis_checkpoint_path a)])"
  "snd (load_discriminator fs a st) = Inl e \<Longrightarrow> e = UnpicklingError \<or> (\<exists>k. e = KeyError k)"
  by (auto simp: load_discriminator_def split: option.splits ckpt_file.splits)

lemma checkpoint_paths_differ: "gen_checkpoint_path a \<noteq> dis_checkpoint_path a"
  by (simp add: gen_checkpoint_path_def dis_checkpoint_path_def)

text \<open>
  A run of \<open>main\<close>: first the loads, at most the two configured paths and each only when
  its file is there; then the actions of the epoch loop, which loads nothing, completes
  the epochs in order, saves after each completed epoch when saving is enabled, and leaves
  every other file as it was.
\<close>

lemma main_run:
  "\<exists>l evs. snd (fst (main env a fs)) = map TorchLoad l @ evs
     \<and> distinct l \<and> set l \<subseteq> {gen_checkpoint_path a, dis_checkpoint_path a} \<inter> dom fs
     \<and> loaded_paths evs = []
     \<and> prefix (completed_epochs evs) [0..<nat (epochs a)]
     \<and> (snd (main env a fs) = Inr () \<longrightarrow> completed_epochs evs = [0..<nat (epochs a)])
     \<and> saved_paths evs = (if save_model a then map (save_path a) (completed_epochs evs) else [])
     \<and> (\<forall>p. p \<notin> set (saved_paths evs) \<longrightarrow> fst (fst (main env a fs)) p = fs p)
     \<and> (epochs a \<le> 0 \<longrightarrow> evs = [])"
proof (cases "word_index_file env")
  case None
  then have "main env a fs = ((fs, []), Inl FileNotFoundError)" by (simp add: main_def)
  then show ?thesis by (simp add: proj_Nil)
next
  case (Some word_index)
  obtain l1 r1 where g: "load_generator fs a (new_generator env) = (l1, r1)"
    by (metis prod.exhaust)
  have l1: "l1 = (if fs (gen_checkpoint_path a) = None then []
      else [TorchLoad (gen_checkpoint_path a)])"
    using load_generator_run(1) [of fs a "new_generator env"] by (simp add: g)
  show ?thesis
  proof (cases r1)
    case (Inl err)
    have "main env a fs = ((fs, l1), Inl err)" by (simp add: main_def Some g Inl)
    then show ?thesis
      by (intro exI [of _ "if fs (gen_checkpoint_path a) = None then []
            else [gen_checkpoint_path a]"] exI [of _ "[]"])
        (auto simp: l1 proj_Nil)
  next
    case (Inr generator)
    obtain l2 r2 where
      d: "load_discriminator fs a (new_discriminator env, new_optimizer env) = (l2, r2)"
      by (metis prod.exhaust)
    have l2: "l2 = (if fs (dis_checkpoint_path a) = None then []
        else [TorchLoad (dis_checkpoint_path a)])"
      using load_discriminator_run(1) [of fs a "(new_discriminator env, new_optimizer env)"]
      by (simp add: d)
    let ?l = "(if fs (gen_checkpoint_path a) = None then [] else [gen_checkpoint_path a])
        @ (if fs (dis_checkpoint_path a) = None then [] else [dis_checkpoint_path a])"
    have ll: "l1 @ l2 = map TorchLoad ?l" by (simp add: l1 l2)
    have dl: "distinct ?l" using checkpoint_paths_differ [of a] by simp
    have sl: "set ?l \<subseteq> {gen_checkpoint_path a, dis_checkpoint_path a} \<inter> dom fs" by auto
    show ?thesis
    proof (cases r2)
      case il: (Inl err)
      have "main env a fs = ((fs, l1 @ l2), Inl err)" by (simp add: main_def Some g Inr d il)
      then have "snd (fst (main env a fs)) = map TorchLoad ?l @ []"
        and "fst (fst (main env a fs)) = fs" and "snd (main env a fs) = Inl err"
        by (simp_all add: ll)
      with dl sl show ?thesis
        by (intro exI [of _ ?l] exI [of _ "[]"]) (simp add: proj_Nil)
    next
      case ir: (Inr st)
      obtain fs' evs r where
        ep: "epoch_loop env a (make_encoder env a) generator word_index fs st
               [0..<nat (epochs a)] = ((fs', evs), r)"
        by (metis prod.exhaust)
      have m: "main env a fs = ((fs', l1 @ l2 @ evs), r)"
        by (simp add: main_def Some g Inr d ir ep)
      then have tr: "snd (fst (main env a fs)) = map TorchLoad ?l @ evs"
        and f: "fst (fst (main env a fs)) = fs'" and r: "snd (main env a fs) = r"
        using ll by simp_all
      have z: "evs = []" if "epochs a \<le> 0"
        using that ep by simp
      from epoch_loop_run [OF ep] dl sl z show ?thesis
        unfolding tr f r
        by (intro exI [of _ ?l] exI [of _ evs]) simp
    qed
  qed
qed

lemma main_errors:
  assumes "snd (main env a fs) = Inl e"
  shows "e = FileNotFoundError \<or> e = UnpicklingError \<or> (\<exists>k. e = KeyError k)
    \<or> e = RuntimeError \<or> e = IndexError \<or> e = ZeroDivisionError"
proof (cases "word_index_file env")
  case None
  with assms show ?thesis by (simp add: main_def)
next
  case (Some word_index)
  obtain l1 r1 where g: "load_generator fs a (new_generator env) = (l1, r1)"
    by (metis prod.exhaust)
  show ?thesis
  proof (cases r1)
    case (Inl err)
    have "e = err" using assms by (simp add: main_def Some g Inl)
    with load_generator_run(2) [of fs a "new_generator env" err] g Inl show ?thesis by auto
  next
    case (Inr generator)
    obtain l2 r2 where
      d: "load_discriminator fs a (new_discriminator env, new_optimizer env) = (l2, r2)"
      by (metis prod.exhaust)
    show ?thesis
    proof (cases r2)
      case il: (Inl err)
      have "e = err" using assms by (simp add: main_def Some g Inr d il)
      with load_discriminator_run(2) [of fs a "(new_discriminator env, new_optimizer env)" err]
        d il show ?thesis by auto
    next
      case ir: (Inr st)
      obtain fs' evs r where
        ep: "epoch_loop env a (make_encoder env a) generator word_index fs st
               [0..<nat (epochs a)] = ((fs', evs), r)"
        by (metis prod.exhaust)
      have "snd (main env a fs) = r" by (simp add: main_def Some g Inr d ir ep)
      with assms ep have "epoch_loop env a (make_encoder env a) generator word_index fs st
               [0..<nat (epochs a)] = ((fs', evs), Inl e)"
        by simp
      from epoch_loop_errors [OF this] show ?thesis by auto
    qed
  qed
qed

text \<open>\<open>main\<close> is the startup followed by the epoch loop on what the startup returns.\<close>

lemma main_startup:
  "main env a fs =
     (case startup env a fs of
        (l, Inl err) \<Rightarrow> ((fs, l), Inl err)
      | (l, Inr (word_index, generator, st)) \<Rightarrow>
          (case epoch_loop env a (make_encoder env a) generator word_index fs st
                  [0..<nat (epochs a)] of
             ((fs', evs), r) \<Rightarrow> ((fs', l @ evs), r)))"
  by (simp add: main_def startup_def split: option.splits prod.splits sum.splits)

lemma main_after_startup:
  assumes "snd (startup env a fs) = Inr (word_index, generator, st)"
  obtains fs' evs r where
    "epoch_loop env a (make_encoder env a) generator word_index fs st [0..<nat (epochs a)]
       = ((fs', evs), r)"
    "main env a fs = ((fs', fst (startup env a fs) @ evs), r)"
proof -
  obtain l where s: "startup env a fs = (l, Inr (word_index, generator, st))"
    using assms by (cases "startup env a fs") simp
  obtain fs' evs r where
    ep: "epoch_loop env a (make_encoder env a) generator word_index fs st
           [0..<nat (epochs a)] = ((fs', evs), r)"
    by (metis prod.exhaust)
  have "main env a fs = ((fs', fst (startup env a fs) @ evs), r)"
    by (simp add: main_startup s ep)
  with ep that show thesis by blast
qed

lemma proj_startup:
  "saved_paths (fst (startup env a fs)) = []" "csv_rows (fst (startup env a fs)) = []"
  "completed_epochs (fst (startup env a fs)) = []"
  by (auto simp: startup_def load_generator_def load_discriminator_def saved_paths_def
      csv_rows_def completed_epochs_def split: option.splits ckpt_file.splits)

lemma main_success_startup:
  assumes "snd (main env a fs) = Inr ()"
  shows "\<exists>word_index generator st. snd (startup env a fs) = Inr (word_index, generator, st)"
proof (cases "snd (startup env a fs)")
  case (Inl err)
  then obtain l where "startup env a fs = (l, Inl err)" by (cases "startup env a fs") simp
  then have "snd (main env a fs) = Inl err" by (simp add: main_startup)
  with assms show ?thesis by simp
next
  case (Inr res)
  then show ?thesis by (cases res) auto
qed

text \<open>
  A run of \<open>main\<close> that ends without an error: the startup returned, and the actions of
  the run are those of the startup followed, for every epoch from 0 to the configured
  count in order, by the actions of that epoch, each from the state the epoch before left.
\<close>

lemma main_success:
  assumes "snd (main env a fs) = Inr ()"
    and "snd (startup env a fs) = Inr (word_index, generator, st)"
  shows "length (epoch_states env a (make_encoder env a) generator word_index st
            [0..<nat (epochs a)]) = nat (epochs a)
    \<and> snd (fst (main env a fs))
        = fst (startup env a fs)
          @ concat (map (epoch_actions env a (make_encoder env a) generator word_index)
              (zip [0..<nat (epochs a)]
                 (epoch_states env a (make_encoder env a) generator word_index st
                    [0..<nat (epochs a)])))
    \<and> list_all (\<lambda>es. \<exists>s. snd (train env a (fst es) (make_encoder env a) generator (snd es)
                                 word_index) = Inr s)
         (zip [0..<nat (epochs a)]
            (epoch_states env a (make_encoder env a) generator word_index st
               [0..<nat (epochs a)]))"
proof -
  from assms(2) obtain fs' evs r where
    ep: "epoch_loop env a (make_encoder env a) generator word_index fs st [0..<nat (epochs a)]
       = ((fs', evs), r)"
    and m: "main env a fs = ((fs', fst (startup env a fs) @ evs), r)"
    by (rule main_after_startup)
  from m assms(1) have r: "r = Inr ()" by simp
  from epoch_loop_success [OF ep [unfolded r]] m show ?thesis by simp
qed


subsection \<open>Loading at startup\<close>

lemma proj_loads:
  "loaded_paths (map TorchLoad l) = l" "saved_paths (map TorchLoad l) = []"
  "csv_rows (map TorchLoad l) = []" "completed_epochs (map TorchLoad l) = []"
  by (induction l)
    (simp_all add: loaded_paths_def saved_paths_def csv_rows_def completed_epochs_def)

lemma load_generator_absent:
  "fs (gen_checkpoint_path a) = None \<Longrightarrow> load_generator fs a generator = ([], Inr generator)"
  by (simp add: load_generator_def)

lemma load_discriminator_absent:
  "fs (dis_checkpoint_path a) = None \<Longrightarrow> load_discriminator fs a st = ([], Inr st)"
  by (simp add: load_discriminator_def)

text \<open>
  C8. In every run of \<open>main\<close>, whatever its outcome: no path is loaded twice; every path
  loaded is the configured generator or discriminator checkpoint path and has a file; the
  loads are the first actions of the run, before any training, logging or saving. When no
  file exists at the generator's path the load does nothing and returns the generator it
  was given, the freshly initialised one in \<open>main\<close>; the same holds for the discriminator
  and its optimizer.
\<close>

theorem checkpoint_loaded_at_most_once:
  "distinct (loaded_paths (snd (fst (main env a fs))))
   \<and> set (loaded_paths (snd (fst (main env a fs))))
       \<subseteq> {gen_checkpoint_path a, dis_checkpoint_path a} \<inter> dom fs
   \<and> (\<exists>rest. snd (fst (main env a fs))
                = map TorchLoad (loaded_paths (snd (fst (main env a fs)))) @ rest
              \<and> loaded_paths rest = [])
   \<and> (fs (gen_checkpoint_path a) = None
        \<longrightarrow> load_generator fs a generator = ([], Inr generator))
   \<and> (fs (dis_checkpoint_path a) = None
        \<longrightarrow> load_discriminator fs a st = ([], Inr st))"
proof -
  from main_run [of env a fs] obtain l evs where
    tr: "snd (fst (main env a fs)) = map TorchLoad l @ evs"
    and l: "distinct l" "set l \<subseteq> {gen_checkpoint_path a, dis_checkpoint_path a} \<inter> dom fs"
    and e: "loaded_paths evs = []"
    by blast
  have lp: "loaded_paths (snd (fst (main env a fs))) = l"
    by (simp add: tr proj_append proj_loads e)
  have "\<exists>rest. snd (fst (main env a fs))
                = map TorchLoad (loaded_paths (snd (fst (main env a fs)))) @ rest
              \<and> loaded_paths rest = []"
    unfolding lp using tr e by blast
  with l lp load_generator_absent [of fs a generator] load_discriminator_absent [of fs a st]
  show ?thesis by simp
qed

theorem checkpoint_loaded_at_most_once_witness:
  "(Map.empty :: nat fs) (gen_checkpoint_path demo_args) = None
   \<and> (Map.empty :: nat fs) (dis_checkpoint_path demo_args) = None
   \<and> load_generator (Map.empty :: nat fs) demo_args 0 = ([], Inr 0)
   \<and> load_discriminator (Map.empty :: nat fs) demo_args (0, 0) = ([], Inr (0, 0))
   \<and> loaded_paths (snd (fst (main demo_env demo_args Map.empty))) = []"
  using checkpoint_loaded_at_most_once [of demo_env demo_args Map.empty 0 "(0, 0)"] by simp

subsection \<open>The epochs that run\<close>

lemma csv_rows_concat: "csv_rows (concat xss) = concat (map csv_rows xss)"
  by (induction xss) (simp_all add: proj_append proj_Nil)

lemma csv_rows_report:
  "print_freq a \<noteq> 0 \<Longrightarrow>
   csv_rows (report_events env a epoch b t l c) =
     (if int b mod print_freq a = 0 \<and> save_stats a
         \<and> parent_dir (stats_path a) \<in> directories env
      then [csv_fields epoch b l c] else [])"
  by (auto simp: report_events_eq csv_rows_def)

text \<open>A pass of the batch loop that returns made a step on every batch, and no report
  raised.\<close>

lemma train_loop_success:
  assumes "snd (train_loop env a epoch encoder generator word_index k lm am st bs) = Inr st'"
  shows "length (epoch_metrics env a encoder generator word_index epoch k st bs) = length bs
    \<and> (\<forall>j < length bs. \<not> report_raises env a (k + j))"
  using assms
proof (induction bs arbitrary: k lm am st)
  case Nil
  show ?case by simp
next
  case (Cons b bs)
  show ?case
  proof (cases "train_batch env a encoder generator word_index epoch k st b")
    case (Inl err)
    with Cons.prems show ?thesis by simp
  next
    case (Inr res)
    obtain st1 loss accuracy where res: "res = (st1, loss, accuracy)" by (cases res) auto
    let ?lm = "AverageMeter_update lm loss" and ?am = "AverageMeter_update am accuracy"
    note rs = report_split [of env a epoch k "elapsed env epoch k" ?lm ?am]
    show ?thesis
    proof (cases "report_raises env a k")
      case True
      then obtain err where
        "snd (report env a epoch k (elapsed env epoch k) ?lm ?am) = Inl err"
        using report_raises_iff [of env a k epoch "elapsed env epoch k" ?lm ?am] by blast
      with Cons.prems Inr res rs show ?thesis by (simp add: Let_def)
    next
      case False
      then have e: "snd (report env a epoch k (elapsed env epoch k) ?lm ?am) = Inr ()"
        by (simp add: report_result report_raises_def)
      have "snd (train_loop env a epoch encoder generator word_index k lm am st (b # bs))
          = snd (train_loop env a epoch encoder generator word_index (Suc k) ?lm ?am st1 bs)"
        using Inr res rs e by (simp add: split_beta Let_def)
      with Cons.prems have
        "snd (train_loop env a epoch encoder generator word_index (Suc k) ?lm ?am st1 bs)
           = Inr st'"
        by simp
      from Cons.IH [OF this] have
        len: "length (epoch_metrics env a encoder generator word_index epoch (Suc k) st1 bs)
          = length bs"
        and nr: "\<forall>j < length bs. \<not> report_raises env a (Suc k + j)"
        by simp_all
      have "\<not> report_raises env a (k + j)" if "j < length (b # bs)" for j
        using that nr False by (cases j) simp_all
      then show ?thesis using Inr res False len by simp
    qed
  qed
qed

lemma train_success:
  assumes "snd (train env a epoch encoder generator st word_index) = Inr st'"
  shows "length (train_metrics env a epoch encoder generator st word_index)
      = length (train_loader env epoch)
    \<and> (\<forall>j < length (train_loader env epoch). \<not> report_raises env a j)"
proof -
  from assms have "snd (train_loop env a epoch encoder generator word_index 0 AverageMeter_init
      AverageMeter_init st (train_loader env epoch)) = Inr st'"
    by (simp add: train_def split: if_splits)
  from train_loop_success [OF this] show ?thesis by (simp add: train_metrics_def)
qed

text \<open>The CSV rows of a call of \<^verbatim>\<open>train\<close> that returns: one for every batch whose index
  is divisible by the print frequency, when stats saving is enabled.\<close>

lemma train_success_rows:
  assumes "snd (train env a epoch encoder generator st word_index) = Inr st'"
    and "save_stats a"
  shows "csv_rows (fst (train env a epoch encoder generator st word_index)) =
     map (\<lambda>b. csv_fields epoch b
                (meter_after (take (Suc b)
                   (map fst (train_metrics env a epoch encoder generator st word_index))))
                (meter_after (take (Suc b)
                   (map snd (train_metrics env a epoch encoder generator st word_index)))))
       (filter (\<lambda>b. int b mod print_freq a = 0) [0..<length (train_loader env epoch)])"
proof (cases "train_loader env epoch = []")
  case True
  then have "train_metrics env a epoch encoder generator st word_index = []"
    by (simp add: train_metrics_def)
  then show ?thesis
    using True by (simp add: train_events_metrics proj_Nil)
next
  case False
  note ts = train_success [OF assms(1)]
  from ts False have nr0: "\<not> report_raises env a 0" by simp
  then have pf: "print_freq a \<noteq> 0" by (simp add: report_raises_def)
  from nr0 assms(2) pf have dir: "parent_dir (stats_path a) \<in> directories env"
    by (simp add: report_raises_def)
  let ?ms = "train_metrics env a epoch encoder generator st word_index"
  let ?row = "\<lambda>b. csv_fields epoch b (meter_after (take (Suc b) (map fst ?ms)))
      (meter_after (take (Suc b) (map snd ?ms)))"
  have "csv_rows (fst (train env a epoch encoder generator st word_index)) =
      concat (map (\<lambda>b. if int b mod print_freq a = 0 then [?row b] else []) [0..<length ?ms])"
    by (simp add: train_events_metrics csv_rows_concat comp_def csv_rows_report [OF pf]
        assms(2) dir)
  also have "\<dots> = map ?row (filter (\<lambda>b. int b mod print_freq a = 0) [0..<length ?ms])"
    by (rule concat_map_if)
  finally show ?thesis using ts by simp
qed

lemma main_one_epoch_rows:
  assumes "epochs a = 1" and "save_stats a" and "snd (main env a fs) = Inr ()"
    and "snd (startup env a fs) = Inr (word_index, generator, st)"
  shows "length (train_metrics env a 0 (make_encoder env a) generator st word_index)
      = length (train_loader env 0)
    \<and> csv_rows (snd (fst (main env a fs))) =
       map (\<lambda>b. csv_fields 0 b
                  (meter_after (take (Suc b)
                     (map fst (train_metrics env a 0 (make_encoder env a) generator st
                                 word_index))))
                  (meter_after (take (Suc b)
                     (map snd (train_metrics env a 0 (make_encoder env a) generator st
                                 word_index)))))
         (filter (\<lambda>b. int b mod print_freq a = 0) [0..<length (train_loader env 0)])"
proof -
  have u: "[0..<nat (epochs a)] = [0]" by (simp add: assms(1))
  have es: "epoch_states env a (make_encoder env a) generator word_index st [0..<nat (epochs a)]
      = [st]"
    using main_success [OF assms(3,4)] unfolding u
    by (cases "snd (train env a 0 (make_encoder env a) generator st word_index)") simp_all
  from main_success [OF assms(3,4)] have
    tr: "snd (fst (main env a fs)) = fst (startup env a fs)
        @ epoch_actions env a (make_encoder env a) generator word_index (0, st)"
    and ok: "\<exists>s. snd (train env a 0 (make_encoder env a) generator st word_index) = Inr s"
    unfolding es u by simp_all
  from ok obtain s where
    t: "snd (train env a 0 (make_encoder env a) generator st word_index) = Inr s" ..
  have "csv_rows (snd (fst (main env a fs)))
      = csv_rows (fst (train env a 0 (make_encoder env a) generator st word_index))"
    unfolding tr epoch_actions_def
    by (simp add: proj_append proj_startup) (simp add: csv_rows_def)
  with train_success_rows [OF t assms(2)] train_success [OF t] show ?thesis by simp
qed

text \<open>
  The claim C9 has metric rows written in a run of one epoch whenever stats saving is
  enabled. With one epoch, stats saving enabled and checkpoint saving disabled: when the
  data loader yields no batch the epoch completes and no row is written; with a print
  frequency of 0 the first batch raises \<^verbatim>\<open>ZeroDivisionError\<close> after its optimizer step and
  nothing is written; when the directory of the CSV record is missing the first batch logs
  its line and raises \<^verbatim>\<open>FileNotFoundError\<close>, and no row is written.
\<close>

theorem rows_not_written_counterexample:
  "epochs (demo_args\<lparr>epochs := 1, save_model := False\<rparr>) = 1
   \<and> save_stats (demo_args\<lparr>epochs := 1, save_model := False\<rparr>)
   \<and> main (demo_env\<lparr>train_loader := (\<lambda>e. [])\<rparr>)
        (demo_args\<lparr>epochs := 1, save_model := False\<rparr>) Map.empty
       = ((Map.empty, [LogInfo (EpochDone 0)]), Inr ())
   \<and> main demo_env (demo_args\<lparr>epochs := 1, save_model := False, print_freq := 0\<rparr>) Map.empty
       = ((Map.empty, []), Inl ZeroDivisionError)
   \<and> main (demo_env\<lparr>directories := {''./ckpts/flickr8k/dis''}\<rparr>)
        (demo_args\<lparr>epochs := 1, save_model := False\<rparr>) Map.empty
       = ((Map.empty,
           [LogInfo (TrainLine [IntCell 0, IntCell 0, FloatCell (1 / 8), FloatCell 1,
              FloatCell 1, FloatCell 1, FloatCell 1])]),
          Inl FileNotFoundError)"
  by (simp add: run_defs)

text \<open>
  C9, amended. The epochs logged as completed are always an initial part of \<open>0, 1, \<dots>\<close>
  up to the configured count: only an error ends the loop early. A run that ends without an
  error did, after the startup, for every epoch from 0 to the configured count and in this
  order, the actions of \<^verbatim>\<open>train\<close> for that epoch from the state the epoch before left,
  the save when saving is enabled, and the completion message; every call of \<^verbatim>\<open>train\<close>
  returned. With an epoch count of 0 the run saves no checkpoint, appends no CSV row and
  leaves the file system as it was. With an epoch count of 1 and checkpoint saving disabled
  it saves no checkpoint and leaves the file system as it was; and if stats saving is
  enabled and the run ends without an error, the rows appended are exactly one for every
  batch of the data loader whose index is divisible by the print frequency, in order, each
  with the epoch, the batch index and the meters after that batch.
\<close>

theorem epochs_run_as_configured:
  "prefix (completed_epochs (snd (fst (main env a fs)))) [0..<nat (epochs a)]
   \<and> (snd (main env a fs) = Inr ()
        \<longrightarrow> completed_epochs (snd (fst (main env a fs))) = [0..<nat (epochs a)]
          \<and> (\<exists>word_index generator st.
                snd (startup env a fs) = Inr (word_index, generator, st)
                \<and> length (epoch_states env a (make_encoder env a) generator word_index st
                            [0..<nat (epochs a)]) = nat (epochs a)
                \<and> snd (fst (main env a fs))
                    = fst (startup env a fs)
                      @ concat (map (epoch_actions env a (make_encoder env a) generator
                                       word_index)
                          (zip [0..<nat (epochs a)]
                             (epoch_states env a (make_encoder env a) generator word_index st
                                [0..<nat (epochs a)])))
                \<and> list_all (\<lambda>es. \<exists>s. snd (train env a (fst es) (make_encoder env a)
                                             generator (snd es) word_index) = Inr s)
                     (zip [0..<nat (epochs a)]
                        (epoch_states env a (make_encoder env a) generator word_index st
                           [0..<nat (epochs a)]))))
   \<and> (epochs a = 0
        \<longrightarrow> saved_paths (snd (fst (main env a fs))) = []
          \<and> csv_rows (snd (fst (main env a fs))) = []
          \<and> fst (fst (main env a fs)) = fs)
   \<and> (epochs a = 1 \<and> \<not> save_model a
        \<longrightarrow> saved_paths (snd (fst (main env a fs))) = [] \<and> fst (fst (main env a fs)) = fs)
   \<and> (epochs a = 1 \<and> save_stats a \<and> snd (main env a fs) = Inr ()
        \<longrightarrow> (\<exists>word_index generator st.
                snd (startup env a fs) = Inr (word_index, generator, st)
                \<and> length (train_metrics env a 0 (make_encoder env a) generator st word_index)
                    = length (train_loader env 0)
                \<and> csv_rows (snd (fst (main env a fs))) =
                    map (\<lambda>b. csv_fields 0 b
                               (meter_after (take (Suc b)
                                  (map fst (train_metrics env a 0 (make_encoder env a)
                                              generator st word_index))))
                               (meter_after (take (Suc b)
                                  (map snd (train_metrics env a 0 (make_encoder env a)
                                              generator st word_index)))))
                      (filter (\<lambda>b. int b mod print_freq a = 0)
                         [0..<length (train_loader env 0)])))"
proof -
  from main_run [of env a fs] obtain l evs where
    tr: "snd (fst (main env a fs)) = map TorchLoad l @ evs"
    and p: "prefix (completed_epochs evs) [0..<nat (epochs a)]"
    and c: "snd (main env a fs) = Inr () \<longrightarrow> completed_epochs evs = [0..<nat (epochs a)]"
    and s: "saved_paths evs = (if save_model a then map (save_path a) (completed_epochs evs) else [])"
    and f: "\<forall>p. p \<notin> set (saved_paths evs) \<longrightarrow> fst (fst (main env a fs)) p = fs p"
    and z: "epochs a \<le> 0 \<longrightarrow> evs = []"
    by blast
  have ce: "completed_epochs (snd (fst (main env a fs))) = completed_epochs evs"
    and sp: "saved_paths (snd (fst (main env a fs))) = saved_paths evs"
    and cr: "csv_rows (snd (fst (main env a fs))) = csv_rows evs"
    by (simp_all add: tr proj_append proj_loads)
  have same: "fst (fst (main env a fs)) = fs" if "saved_paths evs = []"
    using f that by (intro ext) simp
  have 1: "prefix (completed_epochs (snd (fst (main env a fs)))) [0..<nat (epochs a)]"
    using p by (simp add: ce)
  have 2: "snd (main env a fs) = Inr ()
        \<longrightarrow> completed_epochs (snd (fst (main env a fs))) = [0..<nat (epochs a)]
          \<and> (\<exists>word_index generator st.
                snd (startup env a fs) = Inr (word_index, generator, st)
                \<and> length (epoch_states env a (make_encoder env a) generator word_index st
                            [0..<nat (epochs a)]) = nat (epochs a)
                \<and> snd (fst (main env a fs))
                    = fst (startup env a fs)
                      @ concat (map (epoch_actions env a (make_encoder env a) generator
                                       word_index)
                          (zip [0..<nat (epochs a)]
                             (epoch_states env a (make_encoder env a) generator word_index st
                                [0..<nat (epochs a)])))
                \<and> list_all (\<lambda>es. \<exists>s. snd (train env a (fst es) (make_encoder env a)
                                             generator (snd es) word_index) = Inr s)
                     (zip [0..<nat (epochs a)]
                        (epoch_states env a (make_encoder env a) generator word_index st
                           [0..<nat (epochs a)])))"
  proof
    assume ok: "snd (main env a fs) = Inr ()"
    from main_success_startup [OF ok] obtain word_index generator st where
      st: "snd (startup env a fs) = Inr (word_index, generator, st)" by blast
    from main_success [OF ok st] c ok st show
      "completed_epochs (snd (fst (main env a fs))) = [0..<nat (epochs a)]
          \<and> (\<exists>word_index generator st.
                snd (startup env a fs) = Inr (word_index, generator, st)
                \<and> length (epoch_states env a (make_encoder env a) generator word_index st
                            [0..<nat (epochs a)]) = nat (epochs a)
                \<and> snd (fst (main env a fs))
                    = fst (startup env a fs)
                      @ concat (map (epoch_actions env a (make_encoder env a) generator
                                       word_index)
                          (zip [0..<nat (epochs a)]
                             (epoch_states env a (make_encoder env a) generator word_index st
                                [0..<nat (epochs a)])))
                \<and> list_all (\<lambda>es. \<exists>s. snd (train env a (fst es) (make_encoder env a)
                                             generator (snd es) word_index) = Inr s)
                     (zip [0..<nat (epochs a)]
                        (epoch_states env a (make_encoder env a) generator word_index st
                           [0..<nat (epochs a)])))"
      unfolding ce by blast
  qed
  have 3: "epochs a = 0
        \<longrightarrow> saved_paths (snd (fst (main env a fs))) = []
          \<and> csv_rows (snd (fst (main env a fs))) = []
          \<and> fst (fst (main env a fs)) = fs"
    using z same by (auto simp: sp cr proj_Nil)
  have 4: "epochs a = 1 \<and> \<not> save_model a
        \<longrightarrow> saved_paths (snd (fst (main env a fs))) = [] \<and> fst (fst (main env a fs)) = fs"
    using s same by (auto simp: sp)
  have 5: "epochs a = 1 \<and> save_stats a \<and> snd (main env a fs) = Inr ()
        \<longrightarrow> (\<exists>word_index generator st.
                snd (startup env a fs) = Inr (word_index, generator, st)
                \<and> length (train_metrics env a 0 (make_encoder env a) generator st word_index)
                    = length (train_loader env 0)
                \<and> csv_rows (snd (fst (main env a fs))) =
                    map (\<lambda>b. csv_fields 0 b
                               (meter_after (take (Suc b)
                                  (map fst (train_metrics env a 0 (make_encoder env a)
                                              generator st word_index))))
                               (meter_after (take (Suc b)
                                  (map snd (train_metrics env a 0 (make_encoder env a)
                                              generator st word_index)))))
                      (filter (\<lambda>b. int b mod print_freq a = 0)
                         [0..<length (train_loader env 0)]))"
  proof
    assume h: "epochs a = 1 \<and> save_stats a \<and> snd (main env a fs) = Inr ()"
    then have ok: "snd (main env a fs) = Inr ()" by simp
    from main_success_startup [OF ok] obtain word_index generator st where
      st: "snd (startup env a fs) = Inr (word_index, generator, st)" by blast
    from h have e1: "epochs a = 1" and ss: "save_stats a" by simp_all
    from main_one_epoch_rows [OF e1 ss ok st] st show
      "\<exists>word_index generator st.
                snd (startup env a fs) = Inr (word_index, generator, st)
                \<and> length (train_metrics env a 0 (make_encoder env a) generator st word_index)
                    = length (train_loader env 0)
                \<and> csv_rows (snd (fst (main env a fs))) =
                    map (\<lambda>b. csv_fields 0 b
                               (meter_after (take (Suc b)
                                  (map fst (train_metrics env a 0 (make_encoder env a)
                                              generator st word_index))))
                               (meter_after (take (Suc b)
                                  (map snd (train_metrics env a 0 (make_encoder env a)
                                              generator st word_index)))))
                      (filter (\<lambda>b. int b mod print_freq a = 0)
                         [0..<length (train_loader env 0)])"
      by blast
  qed
  from 1 2 3 4 5 show ?thesis by blast
qed

theorem epochs_run_as_configured_witness:
  "epochs (demo_args\<lparr>epochs := 0\<rparr>) = 0
   \<and> saved_paths (snd (fst (main demo_env2 (demo_args\<lparr>epochs := 0\<rparr>) Map.empty))) = []
   \<and> csv_rows (snd (fst (main demo_env2 (demo_args\<lparr>epochs := 0\<rparr>) Map.empty))) = []
   \<and> epochs (demo_args\<lparr>epochs := 1, save_model := False\<rparr>) = 1
   \<and> \<not> save_model (demo_args\<lparr>epochs := 1, save_model := False\<rparr>)
   \<and> save_stats (demo_args\<lparr>epochs := 1, save_model := False\<rparr>)
   \<and> snd (main demo_env2 (demo_args\<lparr>epochs := 1, save_model := False\<rparr>) Map.empty) = Inr ()
   \<and> saved_paths (snd (fst (main demo_env2 (demo_args\<lparr>epochs := 1, save_model := False\<rparr>)
         Map.empty))) = []
   \<and> completed_epochs (snd (fst (main demo_env2 (demo_args\<lparr>epochs := 1, save_model := False\<rparr>)
         Map.empty))) = [0]
   \<and> csv_rows (snd (fst (main demo_env2 (demo_args\<lparr>epochs := 1, save_model := False\<rparr>)
         Map.empty)))
       = [[IntCell 0, IntCell 0, FloatCell 1, FloatCell 1, FloatCell 1, FloatCell 1],
          [IntCell 0, IntCell 1, FloatCell 2, FloatCell 3, FloatCell (1 / 3), FloatCell (2 / 3)]]
   \<and> snd (fst (main demo_env2 (demo_args\<lparr>epochs := 1, save_model := False\<rparr>) Map.empty))
       = fst (train demo_env2 (demo_args\<lparr>epochs := 1, save_model := False\<rparr>) 0 None 0 (0, 0)
                Map.empty)
         @ [LogInfo (EpochDone 0)]
   \<and> length (fst (train demo_env2 (demo_args\<lparr>epochs := 1, save_model := False\<rparr>) 0 None 0
                     (0, 0) Map.empty)) = 4"
proof -
  let ?a0 = "demo_args\<lparr>epochs := 0\<rparr>"
  let ?a1 = "demo_args\<lparr>epochs := 1, save_model := False\<rparr>"
  have h0: "epochs ?a0 = 0" by (simp add: demo_args_def)
  have h1: "epochs ?a1 = 1" "\<not> save_model ?a1" "save_stats ?a1"
    by (simp_all add: demo_args_def)
  have h3: "snd (main demo_env2 ?a1 Map.empty) = Inr ()"
    by (simp add: run_defs)
  have u: "[0..<nat (epochs ?a1)] = [0]" by (simp add: h1)
  have su: "snd (startup demo_env2 ?a1 Map.empty) = Inr (Map.empty, 0, (0, 0))"
    by (simp add: startup_def run_defs)
  have e: "make_encoder demo_env2 ?a1 = None" by (simp add: run_defs)
  have m: "train_metrics demo_env2 ?a1 0 None 0 (0, 0) Map.empty = [(1, 1), (3, 1 / 3)]"
    by (simp add: train_metrics_def run_defs)
  have l: "length (train_loader demo_env2 0) = 2" by (simp add: run_defs)
  have pf: "print_freq ?a1 = 1" by (simp add: demo_args_def)
  have u2: "[0..<2] = [0, 1]" by code_simp
  note T0 = epochs_run_as_configured [of demo_env2 ?a0 Map.empty]
  note T1 = epochs_run_as_configured [of demo_env2 ?a1 Map.empty]
  from T0 h0 have
    a: "saved_paths (snd (fst (main demo_env2 ?a0 Map.empty))) = []"
    and b: "csv_rows (snd (fst (main demo_env2 ?a0 Map.empty))) = []"
    by blast+
  from T1 h1 have
    c: "saved_paths (snd (fst (main demo_env2 ?a1 Map.empty))) = []"
    by blast
  from T1 h3 have
    d: "completed_epochs (snd (fst (main demo_env2 ?a1 Map.empty))) = [0]"
    unfolding u by blast
  from T1 h1 h3 obtain word_index generator st where
    s2: "snd (startup demo_env2 ?a1 Map.empty) = Inr (word_index, generator, st)"
    and rows: "csv_rows (snd (fst (main demo_env2 ?a1 Map.empty))) =
        map (\<lambda>b. csv_fields 0 b
                   (meter_after (take (Suc b)
                      (map fst (train_metrics demo_env2 ?a1 0 (make_encoder demo_env2 ?a1)
                                  generator st word_index))))
                   (meter_after (take (Suc b)
                      (map snd (train_metrics demo_env2 ?a1 0 (make_encoder demo_env2 ?a1)
                                  generator st word_index)))))
          (filter (\<lambda>b. int b mod print_freq ?a1 = 0)
             [0..<length (train_loader demo_env2 0)])"
    by blast
  from s2 su have w: "word_index = Map.empty" "generator = 0" "st = (0, 0)" by simp_all
  have r: "csv_rows (snd (fst (main demo_env2 ?a1 Map.empty)))
       = [[IntCell 0, IntCell 0, FloatCell 1, FloatCell 1, FloatCell 1, FloatCell 1],
          [IntCell 0, IntCell 1, FloatCell 2, FloatCell 3, FloatCell (1 / 3), FloatCell (2 / 3)]]"
    unfolding rows w e m l pf u2
    by (simp add: csv_fields_def meter_after_def AverageMeter_init_def AverageMeter_update_def)
  have t0: "snd (train demo_env2 ?a1 0 None 0 (0, 0) Map.empty) = Inr (2, 2)"
    by (simp add: run_defs)
  have es: "epoch_states demo_env2 ?a1 None 0 Map.empty (0, 0) [0] = [(0, 0)]"
    by (simp add: t0)
  have sf: "fst (startup demo_env2 ?a1 Map.empty) = []"
    by (simp add: startup_def run_defs)
  from T1 h3 obtain w2 g2 st2 where
    s3: "snd (startup demo_env2 ?a1 Map.empty) = Inr (w2, g2, st2)"
    and tr: "snd (fst (main demo_env2 ?a1 Map.empty))
        = fst (startup demo_env2 ?a1 Map.empty)
          @ concat (map (epoch_actions demo_env2 ?a1 (make_encoder demo_env2 ?a1) g2 w2)
              (zip [0..<nat (epochs ?a1)]
                 (epoch_states demo_env2 ?a1 (make_encoder demo_env2 ?a1) g2 w2 st2
                    [0..<nat (epochs ?a1)])))"
    by blast
  from s3 su have w2: "w2 = Map.empty" "g2 = 0" "st2 = (0, 0)" by simp_all
  have x: "snd (fst (main demo_env2 ?a1 Map.empty))
       = fst (train demo_env2 ?a1 0 None 0 (0, 0) Map.empty) @ [LogInfo (EpochDone 0)]"
    unfolding tr w2 e u es sf by (simp add: epoch_actions_def h1)
  have y: "length (fst (train demo_env2 ?a1 0 None 0 (0, 0) Map.empty)) = 4"
    by (simp add: run_defs)
  from h0 h1 h3 a b c d r x y show ?thesis by blast
qed

subsection \<open>The files a run saves\<close>





subsection \<open>The encoder\<close>

text \<open>With precomputed image features the batch loop never looks at the encoder.\<close>

lemma train_batch_features:
  "use_image_features a \<Longrightarrow>
   train_batch env a encoder generator word_index epoch batch_id st b
     = train_batch env a None generator word_index epoch batch_id st b"
  by (simp add: train_batch_def)

lemma train_loop_features:
  assumes "use_image_features a"
  shows "train_loop env a epoch encoder generator word_index k lm am st bs
     = train_loop env a epoch None generator word_index k lm am st bs"
proof (induction bs arbitrary: k lm am st)
  case Nil
  show ?case by simp
next
  case (Cons b bs)
  show ?case
    by (simp add: train_batch_features [OF assms, of env encoder] Cons.IH
        cong: sum.case_cong prod.case_cong)
qed

lemma train_features:
  assumes "use_image_features a"
  shows "train env a epoch encoder generator st word_index
     = train env a epoch None generator st word_index"
  using assms train_loop_features [OF assms, of env epoch encoder]
  by (simp add: train_def)

text \<open>
  C10. With precomputed image features \<open>main\<close> builds no encoder: it stays \<open>None\<close>; and
  then \<^verbatim>\<open>train\<close> does the same whatever the encoder is, since both the call of
  \<^verbatim>\<open>encoder.eval()\<close> and the call of the encoder on the images stand under the negated
  flag. In either configuration, \<^verbatim>\<open>train\<close> called with the encoder \<open>main\<close> builds, and
  \<open>main\<close> itself, never stop with the \<^verbatim>\<open>AttributeError\<close> or the \<^verbatim>\<open>TypeError\<close> of a
  use of \<open>None\<close>.
\<close>

theorem encoder_none_never_used:
  "(use_image_features a \<longrightarrow> make_encoder env a = None)
   \<and> (use_image_features a
        \<longrightarrow> train env a epoch encoder generator st word_index
            = train env a epoch None generator st word_index)
   \<and> snd (train env a epoch (make_encoder env a) generator st word_index) \<noteq> Inl AttributeError
   \<and> snd (train env a epoch (make_encoder env a) generator st word_index) \<noteq> Inl TypeError
   \<and> snd (main env a fs) \<noteq> Inl AttributeError
   \<and> snd (main env a fs) \<noteq> Inl TypeError"
proof -
  have 1: "use_image_features a \<longrightarrow> make_encoder env a = None"
    by (simp add: make_encoder_def)
  have 2: "use_image_features a
        \<longrightarrow> train env a epoch encoder generator st word_index
            = train env a epoch None generator st word_index"
  proof
    assume "use_image_features a"
    then show "train env a epoch encoder generator st word_index
        = train env a epoch None generator st word_index"
      by (rule train_features)
  qed
  have 3: "snd (train env a epoch (make_encoder env a) generator st word_index) \<noteq> Inl e"
    if "e = AttributeError \<or> e = TypeError" for e
    using that train_errors [of env a epoch generator st word_index e] by auto
  have 4: "snd (main env a fs) \<noteq> Inl e" if "e = AttributeError \<or> e = TypeError" for e
    using that main_errors [of env a fs e] by auto
  from 1 2 3 4 show ?thesis by blast
qed

theorem encoder_none_never_used_witness:
  "use_image_features demo_args
   \<and> make_encoder demo_env demo_args = None
   \<and> train demo_env demo_args 0 (Some 4) 0 (0, 0) Map.empty
       = train demo_env demo_args 0 None 0 (0, 0) Map.empty
   \<and> snd (main demo_env demo_args Map.empty) = Inr ()
   \<and> \<not> use_image_features (demo_args\<lparr>use_image_features := False\<rparr>)
   \<and> make_encoder demo_env (demo_args\<lparr>use_image_features := False\<rparr>) = Some 0
   \<and> snd (main demo_env (demo_args\<lparr>use_image_features := False\<rparr>) Map.empty) = Inr ()"
proof -
  have u: "use_image_features demo_args" by (simp add: demo_args_def)
  from encoder_none_never_used [of demo_args demo_env 0 "Some 4" 0 "(0, 0)" Map.empty Map.empty] u
  have a: "make_encoder demo_env demo_args = None"
    and b: "train demo_env demo_args 0 (Some 4) 0 (0, 0) Map.empty
       = train demo_env demo_args 0 None 0 (0, 0) Map.empty"
    by blast+
  have c: "snd (main demo_env demo_args Map.empty) = Inr ()"
    by (simp add: run_defs upt_rec)
  have d: "snd (main demo_env (demo_args\<lparr>use_image_features := False\<rparr>) Map.empty) = Inr ()"
    by (simp add: run_defs upt_rec)
  have e: "make_encoder demo_env (demo_args\<lparr>use_image_features := False\<rparr>) = Some 0"
    by (simp add: make_encoder_def demo_env_def demo_args_def)
  from u a b c d e show ?thesis by (simp add: demo_args_def)
qed

end
